theory Spec2Isabelle
  imports Complex_Main "HOL-Library.Multiset" "HOL-Library.Sublist"
begin

section \<open>Data model (backend/src/types/index.ts)\<close>

text \<open>
  The agents of the travel planner work on \<open>Location\<close> objects. JavaScript numbers are
  read as follows: costs, budgets and coordinates are exact reals (binary rounding is not
  part of the model), minute counts are integers, and a number that can be \<open>NaN\<close> is an
  \<open>option\<close> whose \<open>None\<close> is \<open>NaN\<close>. An optional field is an \<open>option\<close>. Strings are
  ASCII text. The fields \<open>currency\<close>, \<open>openingHours\<close>, \<open>photos\<close>, \<open>source\<close> and
  \<open>vibeScore\<close> of a location are read by none of the functions below and are left out.
\<close>

datatype LocationType =
  Restaurant | Attraction | Activity | Accommodation | Viewpoint | Market | Temple | Cafe | Other

record Coordinates =
  lat :: real
  lng :: real

record Location =
  id' :: string
  name :: string
  address :: "string option"
  coordinates :: "Coordinates option"
  type :: LocationType
  rating :: "real option"
  priceLevel :: "nat option"
  estimatedCost :: "real option"
  verified :: bool

text \<open>
  The fields \<open>companions\<close>, \<open>travelStyle\<close> and \<open>endDate\<close> of the trip preferences are
  left out.
  \<open>new Date(preferences.startDate)\<close> is kept symbolic: a start date is either a string
  that does not denote a date (\<open>InvalidDate\<close>, on which \<open>toISOString\<close> throws a
  \<open>RangeError\<close>) or a calendar day, counted in days. An absent or empty start date is
  \<open>None\<close>.
\<close>

datatype JSDate = InvalidDate | EpochDay int

record TripPreferences =
  budget :: real
  currency :: string
  startDate :: "JSDate option"
  startTime :: "string option"
  endTime :: "string option"

record ClusterGroup =
  clusterId :: string
  centroid :: Coordinates
  locations :: "Location list"
  suggestedDuration :: int

datatype AgentError =
  NoLocationsToCluster | InvalidTimeValue | ChatSessionFailed | MalformedOptimization

section \<open>JavaScript built-ins used by the agents\<close>

text \<open>\<open>Math.round\<close> rounds to the nearest integer, halves upwards.\<close>

definition jsRound :: "real \<Rightarrow> int" where
  "jsRound x = \<lfloor>x + 1 / 2\<rfloor>"

text \<open>The remainder operator \<open>%\<close> of JavaScript truncates: the result has the sign of the dividend.\<close>

definition jsRem :: "int \<Rightarrow> int \<Rightarrow> int" where
  "jsRem a b = sgn a * (\<bar>a\<bar> mod \<bar>b\<bar>)"

definition digitChar :: "nat \<Rightarrow> char" where
  "digitChar n = ''0123456789'' ! n"

fun natToString :: "nat \<Rightarrow> string" where
  "natToString n = (if n < 10 then [digitChar n] else natToString (n div 10) @ [digitChar (n mod 10)])"

declare natToString.simps [simp del]

text \<open>\<open>Number.prototype.toString\<close> on an integer.\<close>

definition intToString :: "int \<Rightarrow> string" where
  "intToString i = (if i < 0 then CHR ''-'' # natToString (nat (- i)) else natToString (nat i))"

text \<open>\<open>s.padStart(2, '0')\<close>.\<close>

definition padStart2 :: "string \<Rightarrow> string" where
  "padStart2 s = replicate (2 - length s) (CHR ''0'') @ s"

definition isWhiteSpace :: "char \<Rightarrow> bool" where
  "isWhiteSpace c = (c \<in> set [CHR 0x09, CHR 0x0A, CHR 0x0B, CHR 0x0C, CHR 0x0D, CHR 0x20])"

definition hexDigits :: "(char \<times> nat) list" where
  "hexDigits =
     zip ''0123456789abcdefABCDEF''
       [0, 1, 2, 3, 4, 5, 6, 7, 8, 9, 10, 11, 12, 13, 14, 15, 10, 11, 12, 13, 14, 15]"

text \<open>The value of a character as a digit of the given radix, if it is one.\<close>

definition digitValue :: "nat \<Rightarrow> char \<Rightarrow> nat option" where
  "digitValue radix c =
     (case map_of hexDigits c of
        None \<Rightarrow> None
      | Some v \<Rightarrow> if v < radix then Some v else None)"

fun digitsValue :: "nat \<Rightarrow> nat \<Rightarrow> string \<Rightarrow> nat" where
  "digitsValue radix acc [] = acc"
| "digitsValue radix acc (c # cs) =
     (case digitValue radix c of
        None \<Rightarrow> acc
      | Some v \<Rightarrow> digitsValue radix (acc * radix + v) cs)"

text \<open>
  \<open>parseInt(s)\<close> with no radix: leading white space is skipped, a sign is read, a
  \<open>0x\<close> prefix selects radix 16, and the longest run of digits is the value; with no digit
  the result is \<open>NaN\<close>.
\<close>

definition parseInt :: "string \<Rightarrow> int option" where
  "parseInt s =
     (let s1 = dropWhile isWhiteSpace s;
          negative = (s1 \<noteq> [] \<and> hd s1 = CHR ''-'');
          s2 = (if s1 \<noteq> [] \<and> (hd s1 = CHR ''-'' \<or> hd s1 = CHR ''+'') then tl s1 else s1);
          hex = (take 2 s2 = ''0x'' \<or> take 2 s2 = ''0X'');
          radix = (if hex then 16 else 10);
          s3 = (if hex then drop 2 s2 else s2)
      in case s3 of
           [] \<Rightarrow> None
         | c # cs \<Rightarrow>
             (case digitValue radix c of
                None \<Rightarrow> None
              | Some v \<Rightarrow>
                  Some ((if negative then - 1 else 1) * int (digitsValue radix 0 s3))))"

definition lowerChar :: "char \<Rightarrow> char" where
  "lowerChar c =
     (case map_of (zip ''ABCDEFGHIJKLMNOPQRSTUVWXYZ'' ''abcdefghijklmnopqrstuvwxyz'') c of
        None \<Rightarrow> c
      | Some l \<Rightarrow> l)"

definition toLowerCase :: "string \<Rightarrow> string" where
  "toLowerCase s = map lowerChar s"

fun startsWith :: "string \<Rightarrow> string \<Rightarrow> bool" where
  "startsWith s [] = True"
| "startsWith [] (c # cs) = False"
| "startsWith (d # ds) (c # cs) = (d = c \<and> startsWith ds cs)"

text \<open>\<open>s.includes(sub)\<close>: \<open>sub\<close> occurs in \<open>s\<close> as a contiguous run.\<close>

fun stringIncludes :: "string \<Rightarrow> string \<Rightarrow> bool" where
  "stringIncludes [] sub = (sub = [])"
| "stringIncludes (c # cs) sub = (startsWith (c # cs) sub \<or> stringIncludes cs sub)"

text \<open>\<open>xs.slice(a, b)\<close> for indices \<open>0 \<le> a\<close>, \<open>0 \<le> b\<close>: both are clamped to the length.\<close>

definition slice :: "'a list \<Rightarrow> nat \<Rightarrow> nat \<Rightarrow> 'a list" where
  "slice xs a b = drop a (take b xs)"

section \<open>Budget Calculator Agent (backend/src/agents/budgetAgent.ts)\<close>

record BudgetBreakdown =
  food :: real
  activities :: real
  transport :: real
  accommodation :: real
  misc :: real
  total' :: real

record Suggestion =
  location :: Location
  reason :: string

record Replacement =
  original :: Location
  alternative :: string
  savings :: real

record BudgetOptimization =
  keep :: "Suggestion list"
  replace :: "Replacement list"
  remove' :: "Suggestion list"

record BudgetOutput =
  breakdown :: BudgetBreakdown
  isOverBudget :: bool
  overageAmount :: real
  optimization :: "BudgetOptimization option"
  adjustedLocations :: "Location list option"

text \<open>The table \<open>baseCosts\<close> of \<open>estimateCost\<close>.\<close>

fun baseCosts :: "LocationType \<Rightarrow> real" where
  "baseCosts Restaurant = 25"
| "baseCosts Attraction = 15"
| "baseCosts Activity = 40"
| "baseCosts Accommodation = 100"
| "baseCosts Viewpoint = 0"
| "baseCosts Market = 20"
| "baseCosts Temple = 5"
| "baseCosts Cafe = 15"
| "baseCosts Other = 10"

text \<open>
  \<open>baseCosts[location.type] || 15\<close> and \<open>location.priceLevel || 2\<close>: a zero is falsy, so
  the base cost of a viewpoint is 15 and a price level 0 counts as 2.
\<close>

definition estimateCost :: "Location \<Rightarrow> real" where
  "estimateCost l =
     (let base = (if baseCosts (type l) = 0 then 15 else baseCosts (type l));
          multiplier = (case priceLevel l of
                          None \<Rightarrow> 2
                        | Some n \<Rightarrow> if n = 0 then 2 else real n)
      in base * (multiplier / 2))"

text \<open>One round of the loop of \<open>calculateBreakdown\<close>.\<close>

definition addCost :: "nat \<Rightarrow> Location \<Rightarrow> BudgetBreakdown \<Rightarrow> BudgetBreakdown" where
  "addCost numDays l b =
     (let cost = (case estimatedCost l of
                    None \<Rightarrow> estimateCost l
                  | Some c \<Rightarrow> if c = 0 then estimateCost l else c)
      in case type l of
           Restaurant \<Rightarrow> b\<lparr>food := food b + cost\<rparr>
         | Accommodation \<Rightarrow> b\<lparr>accommodation := accommodation b + cost * real numDays\<rparr>
         | Attraction \<Rightarrow> b\<lparr>activities := activities b + cost\<rparr>
         | Activity \<Rightarrow> b\<lparr>activities := activities b + cost\<rparr>
         | Market \<Rightarrow> b\<lparr>misc := misc b + cost\<rparr>
         | _ \<Rightarrow> b\<lparr>misc := misc b + cost\<rparr>)"

definition calculateBreakdown :: "Location list \<Rightarrow> nat \<Rightarrow> BudgetBreakdown" where
  "calculateBreakdown locs numDays =
     (let b0 = \<lparr>food = 0, activities = 0, transport = 0, accommodation = 0, misc = 0, total' = 0\<rparr>;
          b1 = fold (addCost numDays) locs b0;
          b2 = b1\<lparr>transport := of_int (jsRound (activities b1 * 0.15))\<rparr>;
          b3 = b2\<lparr>misc := misc b2 + of_int (jsRound ((food b2 + activities b2) * 0.1))\<rparr>
      in b3\<lparr>total' := food b3 + activities b3 + transport b3 + accommodation b3 + misc b3\<rparr>)"

text \<open>\<open>location.estimatedCost || 0\<close>.\<close>

definition costOrZero :: "Location \<Rightarrow> real" where
  "costOrZero l = (case estimatedCost l of None \<Rightarrow> 0 | Some c \<Rightarrow> c)"

text \<open>
  \<open>[...locations].sort((a, b) => (b.estimatedCost || 0) - (a.estimatedCost || 0))\<close>:
  \<open>Array.prototype.sort\<close> is a stable sort, here by descending cost.
\<close>

definition sortByCostDesc :: "Location list \<Rightarrow> Location list" where
  "sortByCostDesc locs = sort_key (\<lambda>l. - costOrZero l) locs"

text \<open>
  One round of the loop of \<open>simpleOptimization\<close>; the state is the optimization built so
  far and the running \<open>savings\<close>, \<open>n\<close> is \<open>locations.length\<close>.
\<close>

definition optimizeStep ::
  "nat \<Rightarrow> real \<Rightarrow> Location \<Rightarrow> BudgetOptimization \<times> real \<Rightarrow> BudgetOptimization \<times> real" where
  "optimizeStep n overage l st =
     (let opt = fst st; saved = snd st; cost = costOrZero l
      in if saved \<ge> overage then
           (opt\<lparr>keep := keep opt @ [\<lparr>location = l, reason = ''Within budget after adjustments''\<rparr>]\<rparr>,
            saved)
         else if (case priceLevel l of None \<Rightarrow> False | Some p \<Rightarrow> p \<ge> 3) \<and> type l = Restaurant then
           (opt\<lparr>replace := replace opt @
              [\<lparr>original = l, alternative = ''Local eatery with similar cuisine'',
                savings = of_int (jsRound (cost * 0.5))\<rparr>]\<rparr>,
            saved + of_int (jsRound (cost * 0.5)))
         else if type l = Activity \<and> cost > 50 then
           (opt\<lparr>replace := replace opt @
              [\<lparr>original = l, alternative = ''Free/cheaper alternative nearby'',
                savings = of_int (jsRound (cost * 0.7))\<rparr>]\<rparr>,
            saved + of_int (jsRound (cost * 0.7)))
         else if cost > 30 \<and> n > 5 then
           (opt\<lparr>remove' := remove' opt @
              [\<lparr>location = l, reason = ''Lowest priority based on ratings and distance''\<rparr>]\<rparr>,
            saved + cost)
         else
           (opt\<lparr>keep := keep opt @ [\<lparr>location = l, reason = ''Good value''\<rparr>]\<rparr>, saved))"

definition simpleOptimization :: "Location list \<Rightarrow> real \<Rightarrow> real \<Rightarrow> BudgetOptimization" where
  "simpleOptimization locs currentTotal targetBudget =
     fst (fold (optimizeStep (length locs) (currentTotal - targetBudget)) (sortByCostDesc locs)
            (\<lparr>keep = [], replace = [], remove' = []\<rparr>, 0))"

definition applyOptimization :: "Location list \<Rightarrow> BudgetOptimization \<Rightarrow> Location list" where
  "applyOptimization locs opt =
     (let removeIds = set (map (\<lambda>r. id' (location r)) (remove' opt))
      in filter (\<lambda>l. id' l \<notin> removeIds) locs)"

text \<open>
  What the chat service contributes to \<open>optimizeBudget\<close>:
  \<^item> \<open>SessionFailed\<close>: no chat session could be created; \<open>createSession\<close> rethrows the
    error, outside every \<open>try\<close> of the chat service and of \<open>optimizeBudget\<close>;
  \<^item> \<open>NoUsableAnswer\<close>: the query failed (\<open>success: false\<close>), or its answer holds no JSON
    object that parses; both lead to \<open>simpleOptimization\<close>;
  \<^item> \<open>Suggested\<close>: the answer parses to keep/replace/remove lists whose \<open>remove\<close> entries
    carry a location with an id;
  \<^item> \<open>Malformed\<close>: the answer parses to an object whose \<open>remove\<close> entries cannot be read
    that way (the prompt asks for entries \<open>{name, reason}\<close>), on which
    \<open>applyOptimization\<close> throws.
  The two exceptions are caught by \<open>BudgetAgent.process\<close>.
\<close>

datatype ChatAnswer = SessionFailed | NoUsableAnswer | Suggested BudgetOptimization | Malformed

definition optimizeBudget ::
  "ChatAnswer \<Rightarrow> Location list \<Rightarrow> real \<Rightarrow> real \<Rightarrow> AgentError + BudgetOptimization" where
  "optimizeBudget chat locs currentTotal targetBudget =
     (case chat of
        SessionFailed \<Rightarrow> Inl ChatSessionFailed
      | NoUsableAnswer \<Rightarrow> Inr (simpleOptimization locs currentTotal targetBudget)
      | Suggested opt \<Rightarrow> Inr opt
      | Malformed \<Rightarrow> Inl MalformedOptimization)"

text \<open>\<open>BudgetAgent.process\<close>; \<open>Inl\<close> is the result with \<open>success: false\<close>.\<close>

definition budgetAgent_process ::
  "ChatAnswer \<Rightarrow> Location list \<Rightarrow> TripPreferences \<Rightarrow> nat \<Rightarrow> AgentError + BudgetOutput" where
  "budgetAgent_process chat locs preferences numDays =
     (let b = calculateBreakdown locs numDays;
          over = (total' b > budget preferences);
          overage = max 0 (total' b - budget preferences)
      in if over then
           (case optimizeBudget chat locs (total' b) (budget preferences) of
              Inl e \<Rightarrow> Inl e
            | Inr opt \<Rightarrow>
                Inr \<lparr>breakdown = b, isOverBudget = over, overageAmount = overage,
                     optimization = Some opt,
                     adjustedLocations = Some (applyOptimization locs opt)\<rparr>)
         else
           Inr \<lparr>breakdown = b, isOverBudget = over, overageAmount = overage,
                optimization = None, adjustedLocations = None\<rparr>)"

section \<open>Centroids\<close>

text \<open>\<open>LocationAgent.calculateCentroid\<close> (the default is Tokyo).\<close>

definition sumCoordinates :: "Coordinates list \<Rightarrow> Coordinates" where
  "sumCoordinates cs =
     fold (\<lambda>coord acc. \<lparr>lat = lat acc + lat coord, lng = lng acc + lng coord\<rparr>) cs
       \<lparr>lat = 0, lng = 0\<rparr>"

definition locationAgent_calculateCentroid :: "Coordinates list \<Rightarrow> Coordinates" where
  "locationAgent_calculateCentroid cs =
     (if length cs = 0 then \<lparr>lat = 35.6762, lng = 139.6503\<rparr>
      else let s = sumCoordinates cs
           in \<lparr>lat = lat s / real (length cs), lng = lng s / real (length cs)\<rparr>)"

text \<open>
  \<open>ClusteringAgent.calculateCentroid\<close>; \<open>validCoords\<close> is its local list of the
  coordinates of the locations that have some.
\<close>

definition validCoords :: "Location list \<Rightarrow> Coordinates list" where
  "validCoords locs = map (\<lambda>l. the (coordinates l)) (filter (\<lambda>l. coordinates l \<noteq> None) locs)"

definition calculateCentroid :: "Location list \<Rightarrow> Coordinates" where
  "calculateCentroid locs =
     (if length (validCoords locs) = 0 then \<lparr>lat = 0, lng = 0\<rparr>
      else let s = sumCoordinates (validCoords locs)
           in \<lparr>lat = lat s / real (length (validCoords locs)),
               lng = lng s / real (length (validCoords locs))\<rparr>)"

section \<open>Clustering and Route Optimizer Agent (backend/src/agents/clusteringAgent.ts)\<close>

text \<open>
  The haversine formula is evaluated by the source in floating point, where a rounding
  error can make its result \<open>NaN\<close>. Every function that measures a distance therefore
  takes the distance function as an argument \<open>hav\<close> (\<open>None\<close> is \<open>NaN\<close>), and what is
  proved of it holds for every such function. \<open>haversineDistance\<close> is the formula over the
  reals; it is used for concrete inputs whose distances are far from any threshold.
  \<open>atan2\<close> is \<open>Math.atan2\<close>.
\<close>

type_synonym distance = "Coordinates \<Rightarrow> Coordinates \<Rightarrow> real option"

definition toRad :: "real \<Rightarrow> real" where
  "toRad deg = deg * (pi / 180)"

definition atan2 :: "real \<Rightarrow> real \<Rightarrow> real" where
  "atan2 y x =
     (if x > 0 then arctan (y / x)
      else if x < 0 then (if y \<ge> 0 then arctan (y / x) + pi else arctan (y / x) - pi)
      else if y > 0 then pi / 2
      else if y < 0 then - (pi / 2)
      else 0)"

definition haversineDistance :: distance where
  "haversineDistance coord1 coord2 =
     (let R = 6371;
          dLat = toRad (lat coord2 - lat coord1);
          dLon = toRad (lng coord2 - lng coord1);
          a = sin (dLat / 2) * sin (dLat / 2) +
              cos (toRad (lat coord1)) * cos (toRad (lat coord2)) *
              sin (dLon / 2) * sin (dLon / 2);
          c = 2 * atan2 (sqrt a) (sqrt (1 - a))
      in Some (R * c))"

text \<open>
  \<open>estimateDuration\<close>: \<open>durations[location.type] || 45\<close>, so the zero of an accommodation
  counts as 45.
\<close>

fun durations :: "LocationType \<Rightarrow> int" where
  "durations Restaurant = 75"
| "durations Attraction = 90"
| "durations Activity = 120"
| "durations Accommodation = 0"
| "durations Viewpoint = 30"
| "durations Market = 60"
| "durations Temple = 60"
| "durations Cafe = 45"
| "durations Other = 45"

definition estimateDuration :: "Location \<Rightarrow> int" where
  "estimateDuration l = (if durations (type l) = 0 then 45 else durations (type l))"

definition CLUSTER_RADIUS_KM :: real where
  "CLUSTER_RADIUS_KM = 3"

text \<open>\<open>distance <= CLUSTER_RADIUS_KM\<close>, false when the distance is \<open>NaN\<close>.\<close>

definition withinRadius :: "distance \<Rightarrow> Coordinates \<Rightarrow> Coordinates \<Rightarrow> bool" where
  "withinRadius hav a b =
     (case hav a b of
        None \<Rightarrow> False
      | Some distance \<Rightarrow> distance \<le> CLUSTER_RADIUS_KM)"

text \<open>
  \<open>clusterByProximity\<close>. \<open>gatherStep\<close> is one round of the inner loop ("find nearby
  locations") around the coordinates of the seed, on the members and the suggested
  duration of the new cluster and the set \<open>assigned\<close> of ids; \<open>clusterStep\<close> is one round of
  the outer loop. The display name of a cluster (\<open>generateClusterName\<close>) is left out.
\<close>

definition gatherStep ::
  "distance \<Rightarrow> Coordinates \<Rightarrow> Location \<Rightarrow> Location list \<times> int \<times> string set \<Rightarrow>
   Location list \<times> int \<times> string set" where
  "gatherStep hav seed other st =
     (case st of (members, duration, assigned) \<Rightarrow>
        (case coordinates other of
           None \<Rightarrow> st
         | Some c \<Rightarrow>
             if id' other \<in> assigned then st
             else if withinRadius hav seed c
             then (members @ [other], duration + estimateDuration other,
                   insert (id' other) assigned)
             else st))"

definition clusterStep ::
  "distance \<Rightarrow> Location list \<Rightarrow> Location \<Rightarrow> ClusterGroup list \<times> string set \<Rightarrow>
   ClusterGroup list \<times> string set" where
  "clusterStep hav locs l st =
     (case st of (clusters, assigned) \<Rightarrow>
        (case coordinates l of
           None \<Rightarrow> st
         | Some c \<Rightarrow>
             if id' l \<in> assigned then st
             else (case fold (gatherStep hav c) locs
                          ([l], estimateDuration l, insert (id' l) assigned) of
                     (members, duration, assigned') \<Rightarrow>
                       (clusters @
                          [\<lparr>clusterId = ''cluster-'' @ intToString (int (length clusters) + 1),
                            centroid = calculateCentroid members,
                            locations = members,
                            suggestedDuration = duration\<rparr>],
                        assigned'))))"

definition clusterByProximity :: "distance \<Rightarrow> Location list \<Rightarrow> ClusterGroup list" where
  "clusterByProximity hav locs = fst (fold (clusterStep hav locs) locs ([], {}))"

text \<open>
  \<open>optimizeClusterOrder\<close>. The source keeps the locations still to place in a \<open>Set\<close> of
  objects. A \<open>Set\<close> compares objects by reference, holds an object once however often it
  is added, and iterates in the order of first insertion. The function is therefore
  modelled over a store: an array of locations is a list of addresses of type \<open>'o\<close>, the
  store \<open>h\<close> gives the object at each address, and two entries of an array are the same
  object exactly when their addresses are equal. A set is the list of its elements in
  insertion order: \<open>setAdd\<close> is \<open>Set.prototype.add\<close>, \<open>newSet\<close> is \<open>new Set(array)\<close> and
  \<open>setDelete\<close> is \<open>Set.prototype.delete\<close>.
\<close>

definition setAdd :: "'o \<Rightarrow> 'o list \<Rightarrow> 'o list" where
  "setAdd x s = (if x \<in> set s then s else s @ [x])"

definition newSet :: "'o list \<Rightarrow> 'o list" where
  "newSet xs = fold setAdd xs []"

definition setDelete :: "'o \<Rightarrow> 'o list \<Rightarrow> 'o list" where
  "setDelete x s = removeAll x s"

text \<open>
  \<open>scanNearest\<close> is one round of the scan for the nearest location: the pair of \<open>nearest\<close>
  and \<open>nearestDist\<close> is \<open>None\<close> while they are \<open>null\<close> and \<open>Infinity\<close>.
\<close>

definition scanNearest ::
  "distance \<Rightarrow> ('o \<Rightarrow> Location) \<Rightarrow> 'o \<Rightarrow> 'o \<Rightarrow> ('o \<times> real) option \<Rightarrow> ('o \<times> real) option" where
  "scanNearest hav h current loc best =
     (case (coordinates (h current), coordinates (h loc)) of
        (Some a, Some b) \<Rightarrow>
          (case hav a b of
             None \<Rightarrow> best
           | Some d \<Rightarrow>
               (case best of
                  None \<Rightarrow> Some (loc, d)
                | Some (nearest, nearestDist) \<Rightarrow> if d < nearestDist then Some (loc, d) else best))
      | _ \<Rightarrow> best)"

definition findNearest :: "distance \<Rightarrow> ('o \<Rightarrow> Location) \<Rightarrow> 'o \<Rightarrow> 'o list \<Rightarrow> 'o option" where
  "findNearest hav h current remaining =
     map_option fst (fold (scanNearest hav h current) remaining None)"

function routeLoop :: "distance \<Rightarrow> ('o \<Rightarrow> Location) \<Rightarrow> 'o list \<Rightarrow> 'o list \<Rightarrow> 'o list" where
  "routeLoop hav h ordered remaining =
     (if remaining = [] then ordered
      else case findNearest hav h (last ordered) remaining of
             Some nearest \<Rightarrow> routeLoop hav h (ordered @ [nearest]) (setDelete nearest remaining)
           | None \<Rightarrow> ordered @ remaining)"
  by pat_completeness auto
termination
proof (relation "measure (\<lambda>(hav, h, ordered, remaining). length remaining)")
  show "wf (measure (\<lambda>(hav, h, ordered, remaining). length remaining))" by simp
next
  fix hav :: distance and h :: "'o \<Rightarrow> Location" and ordered remaining :: "'o list" and nearest :: 'o
  assume ne: "remaining \<noteq> []"
    and found: "findNearest hav h (last ordered) remaining = Some nearest"
  have inv: "(case fold (scanNearest hav h cur) xs best of
                None \<Rightarrow> True
              | Some (n, d) \<Rightarrow> n \<in> set xs \<or> best = Some (n, d))" for cur xs best
  proof (induction xs arbitrary: best)
    case Nil
    show ?case by (simp split: option.splits)
  next
    case (Cons x xs)
    show ?case
      using Cons.IH [where best = "scanNearest hav h cur x best"]
      by (auto simp: scanNearest_def split: option.splits if_splits prod.splits)
  qed
  have "nearest \<in> set remaining"
    using found inv [where cur = "last ordered" and xs = remaining and best = None]
    by (auto simp: findNearest_def split: option.splits)
  then have "length (setDelete nearest remaining) < length remaining"
    by (simp add: setDelete_def length_removeAll_less)
  then show "((hav, h, ordered @ [nearest], setDelete nearest remaining), (hav, h, ordered, remaining))
      \<in> measure (\<lambda>(hav, h, ordered, remaining). length remaining)"
    by simp
qed

declare routeLoop.simps [simp del]

definition optimizeClusterOrder :: "distance \<Rightarrow> ('o \<Rightarrow> Location) \<Rightarrow> 'o list \<Rightarrow> 'o list" where
  "optimizeClusterOrder hav h locs =
     (if length locs \<le> 2 then locs
      else routeLoop hav h [hd locs] (newSet (tl locs)))"

text \<open>
  \<open>optimizeClusterSequence\<close>: the same greedy walk over the centroids of the clusters.
  Its loop has no branch for the case that no nearest cluster is found (every distance
  \<open>NaN\<close>): it then runs forever, which is the value \<open>None\<close> of \<open>sequenceLoop\<close>.
  The array holds the clusters that \<open>clusterByProximity\<close> has created, each a new object
  with an id of its own that is pushed once, so no object is in the array twice and the
  \<open>Set\<close> of the clusters after the first is the list of them.
\<close>

definition scanNearestCluster ::
  "distance \<Rightarrow> ClusterGroup \<Rightarrow> ClusterGroup \<Rightarrow> (ClusterGroup \<times> real) option \<Rightarrow>
   (ClusterGroup \<times> real) option" where
  "scanNearestCluster hav current cluster best =
     (case hav (centroid current) (centroid cluster) of
        None \<Rightarrow> best
      | Some d \<Rightarrow>
          (case best of
             None \<Rightarrow> Some (cluster, d)
           | Some (nearest, nearestDist) \<Rightarrow> if d < nearestDist then Some (cluster, d) else best))"

definition findNearestCluster ::
  "distance \<Rightarrow> ClusterGroup \<Rightarrow> ClusterGroup list \<Rightarrow> ClusterGroup option" where
  "findNearestCluster hav current remaining =
     map_option fst (fold (scanNearestCluster hav current) remaining None)"

partial_function (option) sequenceLoop ::
  "distance \<Rightarrow> ClusterGroup list \<Rightarrow> ClusterGroup list \<Rightarrow> ClusterGroup list option" where
  "sequenceLoop hav ordered remaining =
     (if remaining = [] then Some ordered
      else case findNearestCluster hav (last ordered) remaining of
             Some nearest \<Rightarrow> sequenceLoop hav (ordered @ [nearest]) (remove1 nearest remaining)
           | None \<Rightarrow> sequenceLoop hav ordered remaining)"

definition optimizeClusterSequence ::
  "distance \<Rightarrow> ClusterGroup list \<Rightarrow> ClusterGroup list option" where
  "optimizeClusterSequence hav clusters =
     (if length clusters \<le> 2 then Some clusters
      else sequenceLoop hav [hd clusters] (tl clusters))"

text \<open>
  \<open>ClusteringAgent.process\<close>, of whose output the ordered clusters are kept (the total
  distance and the map link are read by no later stage). \<open>None\<close>: the call does not return.
  The array that \<open>optimizeClusterOrder\<close> receives here is the member list of a cluster.
  \<open>clusterByProximity\<close> pushes a location only when its id is not yet assigned, so the
  members of a cluster carry pairwise distinct ids (\<open>cluster_members_distinct\<close> below) and
  are pairwise distinct objects: each is its own address, and the store is the identity.
\<close>

definition clusteringAgent_process ::
  "distance \<Rightarrow> Location list \<Rightarrow> (AgentError + ClusterGroup list) option" where
  "clusteringAgent_process hav locs =
     (if length locs = 0 then Some (Inl NoLocationsToCluster)
      else let clusters = map (\<lambda>c. c\<lparr>locations := optimizeClusterOrder hav (\<lambda>l. l) (locations c)\<rparr>)
                            (clusterByProximity hav locs)
           in map_option Inr (optimizeClusterSequence hav clusters))"

text \<open>The members of a list of clusters, in order: \<open>clusters.flatMap(c => c.locations)\<close>.\<close>

definition members :: "ClusterGroup list \<Rightarrow> Location list" where
  "members clusters = concat (map locations clusters)"

text \<open>
  A cluster is \<open>seeded\<close> relative to the ids assigned before it was opened when its first
  member has coordinates and every location of the input that lies within the radius of
  that first member has its id among the earlier ids or among the ids of the cluster.
\<close>

definition seeded :: "distance \<Rightarrow> Location list \<Rightarrow> string set \<Rightarrow> ClusterGroup \<Rightarrow> bool" where
  "seeded hav locs earlier c =
     (\<exists>s rest cs. locations c = s # rest \<and> coordinates s = Some cs \<and>
        (\<forall>p\<in>set locs. \<forall>cp. coordinates p = Some cp \<longrightarrow> withinRadius hav cs cp \<longrightarrow>
           id' p \<in> earlier \<union> id' ` set (locations c)))"

section \<open>Time Orchestrator Agent (agents/timeAgent.ts)\<close>

text \<open>
  The notes of a slot are four fixed texts of the source, which begin with a pictograph;
  they are named here instead of being spelt out.
\<close>

datatype TimeNote = SunsetViews | FewerCrowds | FreshestProduce | Reservation

record TimeSlot =
  locationId :: string
  startTime :: string
  endTime :: string
  duration :: int
  travelTime :: "int option"
  isOptimalTime :: bool
  notes' :: "TimeNote option"

text \<open>
  The date of a day schedule is the start date of the preferences, or the day of the run
  when there is none, moved on by the index of the day.
\<close>

datatype DayDate = TodayPlus nat | DayNumber int

record DaySchedule =
  date :: DayDate
  slots :: "TimeSlot list"
  totalDuration :: "int option"
  restBreaks :: nat

record TimeOrchestratorOutput =
  schedules :: "DaySchedule list"
  warnings :: "string list"
  suggestions :: "string list"

text \<open>
  \<open>minutesToTime\<close>: the hour is \<open>Math.floor(minutes / 60) % 24\<close>. A clock that is \<open>NaN\<close>
  renders as \<open>NaN:NaN\<close>.
\<close>

definition minutesToTime :: "int option \<Rightarrow> string" where
  "minutesToTime minutes =
     (case minutes of
        None \<Rightarrow> ''NaN:NaN''
      | Some m \<Rightarrow>
          (let hours = jsRem (m div 60) 24;
               mins = jsRem m 60
           in padStart2 (intToString hours) @ '':'' @ padStart2 (intToString mins)))"

definition getOptimalStartTime :: "Location \<Rightarrow> int" where
  "getOptimalStartTime l =
     (case type l of
        Viewpoint \<Rightarrow> 17 * 60
      | Market \<Rightarrow> 10 * 60
      | Restaurant \<Rightarrow>
          if stringIncludes (toLowerCase (name l)) ''breakfast'' then 8 * 60
          else if stringIncludes (toLowerCase (name l)) ''dinner'' then 19 * 60
          else 12 * 60
      | Attraction \<Rightarrow> 9 * 60
      | _ \<Rightarrow> 11 * 60)"

text \<open>\<open>locations.sort((a, b) => aTime - bTime)\<close>: a stable sort by the optimal start minute.\<close>

definition sortByOptimalTime :: "Location list \<Rightarrow> Location list" where
  "sortByOptimalTime locs = sort_key getOptimalStartTime locs"

text \<open>
  \<open>estimateVisitDuration\<close>: \<open>durations[location.type] || 45\<close>, so an accommodation counts
  45 minutes.
\<close>

fun visitDurations :: "LocationType \<Rightarrow> int" where
  "visitDurations Restaurant = 75"
| "visitDurations Attraction = 90"
| "visitDurations Activity = 120"
| "visitDurations Accommodation = 0"
| "visitDurations Viewpoint = 45"
| "visitDurations Market = 60"
| "visitDurations Temple = 60"
| "visitDurations Cafe = 45"
| "visitDurations Other = 45"

definition estimateVisitDuration :: "Location \<Rightarrow> int" where
  "estimateVisitDuration l = (if visitDurations (type l) = 0 then 45 else visitDurations (type l))"

text \<open>\<open>Math.max(10, Math.round(timeHours * 60))\<close> is \<open>NaN\<close> when the distance is.\<close>

definition estimateTravelTime :: "distance \<Rightarrow> Location \<Rightarrow> Location \<Rightarrow> int option" where
  "estimateTravelTime hav from to =
     (case (coordinates from, coordinates to) of
        (Some a, Some b) \<Rightarrow>
          (case hav a b of
             None \<Rightarrow> None
           | Some distance \<Rightarrow>
               (let timeHours = distance / 15
                in Some (max 10 (jsRound (timeHours * 60)))))
      | _ \<Rightarrow> Some 20)"

definition adjustForMealTime :: "Location \<Rightarrow> int option \<Rightarrow> bool \<times> int option" where
  "adjustForMealTime l currentTime =
     (if type l \<noteq> Restaurant then (False, currentTime)
      else case currentTime of
             None \<Rightarrow> (False, currentTime)
           | Some t \<Rightarrow>
               (let hour = t div 60
                in if hour \<ge> 11 \<and> hour < 12 then (True, Some (12 * 60))
                   else if hour \<ge> 17 \<and> hour < 18 then (True, Some (18 * 60))
                   else (False, currentTime)))"

text \<open>\<open>hour >= lo && hour <= hi\<close> for \<open>hour = Math.floor(currentTime / 60)\<close>; false on \<open>NaN\<close>.\<close>

definition hourIn :: "int option \<Rightarrow> int \<Rightarrow> int \<Rightarrow> bool" where
  "hourIn currentTime lo hi =
     (case currentTime of
        None \<Rightarrow> False
      | Some t \<Rightarrow> t div 60 \<ge> lo \<and> t div 60 \<le> hi)"

definition isOptimalVisitTime :: "Location \<Rightarrow> int option \<Rightarrow> bool" where
  "isOptimalVisitTime l currentTime =
     (case type l of
        Viewpoint \<Rightarrow> hourIn currentTime 16 19
      | Attraction \<Rightarrow> hourIn currentTime 9 11
      | Market \<Rightarrow> hourIn currentTime 8 11
      | Restaurant \<Rightarrow> hourIn currentTime 12 14 \<or> hourIn currentTime 18 21
      | _ \<Rightarrow> True)"

definition generateTimeNotes :: "Location \<Rightarrow> int option \<Rightarrow> TimeNote option" where
  "generateTimeNotes l currentTime =
     (if type l = Viewpoint \<and> hourIn currentTime 16 18 then Some SunsetViews
      else if type l = Attraction \<and> hourIn currentTime 9 10 then Some FewerCrowds
      else if type l = Market \<and> hourIn currentTime 8 10 then Some FreshestProduce
      else if type l = Restaurant then Some Reservation
      else None)"

text \<open>Addition of numbers that may be \<open>NaN\<close>.\<close>

definition addMinutes :: "int option \<Rightarrow> int option \<Rightarrow> int option" where
  "addMinutes a b =
     (case a of
        None \<Rightarrow> None
      | Some x \<Rightarrow> (case b of None \<Rightarrow> None | Some y \<Rightarrow> Some (x + y)))"

text \<open>
  \<open>preferences.startTime ? parseInt(preferences.startTime.split(':')[0]) : 9\<close>; the empty
  string is falsy.
\<close>

definition startHourOf :: "TripPreferences \<Rightarrow> int option" where
  "startHourOf preferences =
     (case TripPreferences.startTime preferences of
        None \<Rightarrow> Some 9
      | Some s \<Rightarrow> if s = [] then Some 9 else parseInt (takeWhile (\<lambda>c. c \<noteq> CHR '':'') s))"

text \<open>
  One round of the loop of \<open>createDaySchedule\<close>, at index \<open>i\<close> of the sorted locations, on
  the slots emitted so far, the running clock \<open>currentTime\<close> and the count of rest breaks.
\<close>

definition scheduleStep ::
  "distance \<Rightarrow> Location list \<Rightarrow> nat \<Rightarrow> TimeSlot list \<times> int option \<times> nat \<Rightarrow>
   TimeSlot list \<times> int option \<times> nat" where
  "scheduleStep hav sortedLocations i st =
     (case st of (slotList, currentTime, breaks) \<Rightarrow>
        (let location = sortedLocations ! i;
             duration = estimateVisitDuration location;
             travelTime = (if i > 0 then estimateTravelTime hav (sortedLocations ! (i - 1)) location
                           else Some 0);
             afterTravel = addMinutes currentTime travelTime;
             restBreak = (i > 0 \<and> i mod 3 = 0 \<and> length slotList > 0);
             afterBreak = (if restBreak then addMinutes afterTravel (Some 20) else afterTravel);
             mealAdjustment = adjustForMealTime location afterBreak;
             visitStart = (if fst mealAdjustment then snd mealAdjustment else afterBreak);
             slot = \<lparr>locationId = id' location,
                     startTime = minutesToTime visitStart,
                     endTime = minutesToTime (addMinutes visitStart (Some duration)),
                     duration = duration,
                     travelTime = travelTime,
                     isOptimalTime = isOptimalVisitTime location visitStart,
                     notes' = generateTimeNotes location visitStart\<rparr>
         in (slotList @ [slot], addMinutes visitStart (Some duration),
             if restBreak then breaks + 1 else breaks)))"

text \<open>
  \<open>createDaySchedule\<close>. \<open>toISOString\<close> throws on an invalid date, after the loop; the
  result is then \<open>Inl\<close>.
\<close>

definition createDaySchedule ::
  "distance \<Rightarrow> Location list \<Rightarrow> nat \<Rightarrow> TripPreferences \<Rightarrow> AgentError + DaySchedule" where
  "createDaySchedule hav locs dayIndex preferences =
     (let startHour = startHourOf preferences;
          start = map_option (\<lambda>h. h * 60) startHour;
          sortedLocations = sortByOptimalTime locs
      in case fold (scheduleStep hav sortedLocations) [0 ..< length sortedLocations] ([], start, 0) of
           (slotList, currentTime, breaks) \<Rightarrow>
             (case startDate preferences of
                Some InvalidDate \<Rightarrow> Inl InvalidTimeValue
              | Some (EpochDay d) \<Rightarrow>
                  Inr \<lparr>date = DayNumber (d + int dayIndex), slots = slotList,
                       totalDuration = addMinutes currentTime (map_option uminus start),
                       restBreaks = breaks\<rparr>
              | None \<Rightarrow>
                  Inr \<lparr>date = TodayPlus dayIndex, slots = slotList,
                       totalDuration = addMinutes currentTime (map_option uminus start),
                       restBreaks = breaks\<rparr>))"

definition packedWarning :: "nat \<Rightarrow> int \<Rightarrow> string" where
  "packedWarning day minutes =
     ''Day '' @ intToString (int day + 1) @ '' is quite packed ('' @
     intToString (jsRound (real_of_int minutes / 60)) @
     '' hours). Consider moving some activities.''"

text \<open>
  The loop over the days of \<open>TimeAgent.process\<close>, on the schedules and the warnings so
  far. An exception of \<open>createDaySchedule\<close> ends the whole call (\<open>success: false\<close>).
\<close>

fun scheduleDays ::
  "distance \<Rightarrow> Location list \<Rightarrow> nat \<Rightarrow> TripPreferences \<Rightarrow> nat list \<Rightarrow>
   DaySchedule list \<times> string list \<Rightarrow> AgentError + DaySchedule list \<times> string list" where
  "scheduleDays hav orderedLocations locationsPerDay preferences [] st = Inr st"
| "scheduleDays hav orderedLocations locationsPerDay preferences (day # days) st =
     (let dayLocations = slice orderedLocations (day * locationsPerDay) ((day + 1) * locationsPerDay)
      in if length dayLocations = 0
         then scheduleDays hav orderedLocations locationsPerDay preferences days st
         else (case createDaySchedule hav dayLocations day preferences of
                 Inl e \<Rightarrow> Inl e
               | Inr schedule \<Rightarrow>
                   scheduleDays hav orderedLocations locationsPerDay preferences days
                     (fst st @ [schedule],
                      case totalDuration schedule of
                        None \<Rightarrow> snd st
                      | Some t \<Rightarrow> if t > 10 * 60 then snd st @ [packedWarning day t] else snd st)))"

text \<open>\<open>Math.ceil(n / d)\<close> for \<open>d > 0\<close>.\<close>

definition ceilDiv :: "nat \<Rightarrow> nat \<Rightarrow> nat" where
  "ceilDiv n d = (n + d - 1) div d"

definition generalSuggestions :: "Location list \<Rightarrow> string list" where
  "generalSuggestions orderedLocations =
     (if \<exists>l \<in> set orderedLocations. type l = Viewpoint
      then [''Viewpoints are best visited during golden hour (sunrise/sunset) for the best experience.'']
      else []) @
     (if length (filter (\<lambda>l. type l = Restaurant) orderedLocations) > 3
      then [''Consider booking restaurants in advance, especially for dinner.'']
      else [])"

text \<open>
  \<open>TimeAgent.process\<close>. Its parameter \<open>locations\<close> is read nowhere in its body: the
  locations it schedules are the members of the clusters.
\<close>

definition timeAgent_process ::
  "distance \<Rightarrow> ClusterGroup list \<Rightarrow> Location list \<Rightarrow> TripPreferences \<Rightarrow> nat \<Rightarrow>
   AgentError + TimeOrchestratorOutput" where
  "timeAgent_process hav clusters locs preferences numDays =
     (let orderedLocations = members clusters;
          locationsPerDay = ceilDiv (length orderedLocations) numDays
      in case scheduleDays hav orderedLocations locationsPerDay preferences [0 ..< numDays] ([], []) of
           Inl e \<Rightarrow> Inl e
         | Inr (scheduleList, warningList) \<Rightarrow>
             Inr \<lparr>schedules = scheduleList, warnings = warningList,
                  suggestions = generalSuggestions orderedLocations\<rparr>)"

section \<open>Agent Orchestrator (agents/orchestrator.ts)\<close>

text \<open>
  Stages 5 to 7 of \<open>AgentOrchestrator.process\<close>: clustering, budget and scheduling of the
  final locations. Both agents that measure distances have their own copy of the haversine
  function. The result is the pair of \<open>budgetLocations\<close> and the output of the time agent;
  \<open>Inl\<close> is the error that the orchestrator throws when an agent fails, \<open>None\<close> a run that
  does not return.
\<close>

definition orchestrator_schedule ::
  "distance \<Rightarrow> distance \<Rightarrow> ChatAnswer \<Rightarrow> Location list \<Rightarrow> TripPreferences \<Rightarrow>
   (AgentError + Location list \<times> TimeOrchestratorOutput) option" where
  "orchestrator_schedule clusterHav travelHav chat finalLocations preferences =
     (case clusteringAgent_process clusterHav finalLocations of
        None \<Rightarrow> None
      | Some (Inl e) \<Rightarrow> Some (Inl e)
      | Some (Inr clusters) \<Rightarrow>
          (let numDays = max 1 (ceilDiv (length finalLocations) 5)
           in case budgetAgent_process chat finalLocations preferences numDays of
                Inl e \<Rightarrow> Some (Inl e)
              | Inr budgetData \<Rightarrow>
                  (let budgetLocations = (case adjustedLocations budgetData of
                                            Some adjusted \<Rightarrow> adjusted
                                          | None \<Rightarrow> finalLocations)
                   in case timeAgent_process travelHav clusters budgetLocations preferences numDays of
                        Inl e \<Rightarrow> Some (Inl e)
                      | Inr timeData \<Rightarrow> Some (Inr (budgetLocations, timeData)))))"

section \<open>Reading a time string\<close>

text \<open>The minute of the day that a string \<open>HH:MM\<close> denotes.\<close>

definition timeOfDay :: "string \<Rightarrow> int option" where
  "timeOfDay s =
     (case parseInt (takeWhile (\<lambda>c. c \<noteq> CHR '':'') s) of
        None \<Rightarrow> None
      | Some h \<Rightarrow>
          (case parseInt (drop 1 (dropWhile (\<lambda>c. c \<noteq> CHR '':'') s)) of
             None \<Rightarrow> None
           | Some m \<Rightarrow> Some (h * 60 + m)))"

section \<open>Example inputs\<close>

text \<open>
  What the places search returns when the maps service is unreachable: every query gets
  the place id \<open>mock-1\<close>.
\<close>

definition mockA :: Location where
  "mockA = \<lparr>id' = ''mock-1'', name = ''Senso-ji'', address = Some ''123 Travel Street, Tokyo, Japan'',
             coordinates = Some \<lparr>lat = 35.70, lng = 139.70\<rparr>, type = Other, rating = Some 4.5,
             priceLevel = Some 2, estimatedCost = Some 10, verified = True\<rparr>"

definition mockB :: Location where
  "mockB = \<lparr>id' = ''mock-1'', name = ''Meiji Shrine'', address = Some ''123 Travel Street, Tokyo, Japan'',
             coordinates = Some \<lparr>lat = 35.75, lng = 139.72\<rparr>, type = Other, rating = Some 4.3,
             priceLevel = Some 1, estimatedCost = Some 5, verified = True\<rparr>"

definition noCoordinates :: Location where
  "noCoordinates = \<lparr>id' = ''n1'', name = ''Night market'', address = None, coordinates = None,
                     type = Market, rating = None, priceLevel = None, estimatedCost = None,
                     verified = True\<rparr>"

text \<open>Six stops of cost 10 each, and two cafes of the same cost.\<close>

definition sixStops :: "Location list" where
  "sixStops =
     map (\<lambda>k. \<lparr>id' = k, name = ''Stop '' @ k, address = None, coordinates = None, type = Other,
               rating = None, priceLevel = None, estimatedCost = Some 10, verified = True\<rparr>)
       [''p1'', ''p2'', ''p3'', ''p4'', ''p5'', ''p6'']"

definition twoCafes :: "Location list" where
  "twoCafes =
     [\<lparr>id' = ''c1'', name = ''Cafe One'', address = None, coordinates = None, type = Cafe,
       rating = None, priceLevel = None, estimatedCost = Some 15, verified = True\<rparr>,
      \<lparr>id' = ''c2'', name = ''Cafe Two'', address = None, coordinates = None, type = Cafe,
       rating = None, priceLevel = None, estimatedCost = Some 15, verified = True\<rparr>]"

text \<open>
  Four places on one meridian in Tokyo, 0.02 degrees of latitude (about 2.2 km) apart.
\<close>

definition cA :: Coordinates where "cA = \<lparr>lat = 35.66, lng = 139.70\<rparr>"

definition cP :: Coordinates where "cP = \<lparr>lat = 35.68, lng = 139.70\<rparr>"

definition cB :: Coordinates where "cB = \<lparr>lat = 35.70, lng = 139.70\<rparr>"

definition cQ :: Coordinates where "cQ = \<lparr>lat = 35.72, lng = 139.70\<rparr>"

definition lA :: Location where
  "lA = \<lparr>id' = ''A'', name = ''Shibuya Crossing'', address = None, coordinates = Some cA, type = Attraction,
          rating = None, priceLevel = None, estimatedCost = None, verified = True\<rparr>"

definition lP :: Location where
  "lP = \<lparr>id' = ''P'', name = ''Yoyogi Park'', address = None, coordinates = Some cP, type = Viewpoint,
          rating = None, priceLevel = None, estimatedCost = None, verified = True\<rparr>"

definition lB :: Location where
  "lB = \<lparr>id' = ''B'', name = ''Shinjuku Gyoen'', address = None, coordinates = Some cB, type = Attraction,
          rating = None, priceLevel = None, estimatedCost = None, verified = True\<rparr>"

definition lQ :: Location where
  "lQ = \<lparr>id' = ''Q'', name = ''Takadanobaba'', address = None, coordinates = Some cQ, type = Other,
          rating = None, priceLevel = None, estimatedCost = None, verified = True\<rparr>"

definition tokyoLine :: "Location list" where
  "tokyoLine = [lA, lP, lB, lQ]"


text \<open>A restaurant, and preferences with the default day from 09:00 to 21:00.\<close>

definition lunchPlace :: Location where
  "lunchPlace = \<lparr>id' = ''r1'', name = ''Sushi Dai'', address = None, coordinates = Some cA, type = Restaurant,
        rating = Some 4.6, priceLevel = Some 2, estimatedCost = Some 25, verified = True\<rparr>"

definition nineToNine :: TripPreferences where
  "nineToNine = \<lparr>budget = 500, currency = ''USD'', startDate = None, startTime = Some ''09:00'',
                  endTime = Some ''21:00''\<rparr>"

text \<open>
  Six places at one spot: a museum of cost 40 and five stalls of cost 10, for a budget of 50.
\<close>

definition museum :: Location where
  "museum = \<lparr>id' = ''a'', name = ''Mori Art Museum'', address = None, coordinates = Some cB,
              type = Attraction, rating = Some 4.4, priceLevel = Some 2, estimatedCost = Some 40,
              verified = True\<rparr>"

definition stall :: "string \<Rightarrow> Location" where
  "stall k = \<lparr>id' = k, name = ''Stall '' @ k, address = None, coordinates = Some cB,
               type = Other, rating = None, priceLevel = None, estimatedCost = Some 10,
               verified = True\<rparr>"

definition sixPlaces :: "Location list" where
  "sixPlaces = [museum, stall ''o1'', stall ''o2'', stall ''o3'', stall ''o4'', stall ''o5'']"

definition budget50 :: TripPreferences where
  "budget50 = \<lparr>budget = 50, currency = ''USD'', startDate = None, startTime = Some ''09:00'',
                endTime = Some ''21:00''\<rparr>"

text \<open>The six places as one cluster.\<close>

definition sixCluster :: ClusterGroup where
  "sixCluster = \<lparr>clusterId = ''cluster-1'', centroid = cB, locations = sixPlaces,
                  suggestedDuration = 315\<rparr>"



section \<open>Budget check and budget fallback\<close>

lemma sixStops_breakdown:
  "calculateBreakdown sixStops 2 =
     \<lparr>food = 0, activities = 0, transport = 0, accommodation = 0, misc = 60, total' = 60\<rparr>"
  by (simp add: calculateBreakdown_def sixStops_def addCost_def jsRound_def)

text \<open>
  C2. The budget of the preferences is entered as a budget per day (the upload page labels
  it "Daily Budget ... / day"), so a trip of \<open>numDays\<close> days is within budget when its total
  is at most \<open>budget * numDays\<close>. \<open>BudgetAgent.process\<close> compares the total of the whole trip
  with the budget of one day. Six stops of cost 10 on a two-day trip with a daily budget of
  50 cost 60, which is at most 100, and are reported over budget by 10.
\<close>

theorem checkBudget_ignores_numDays:
  "map_sum id (\<lambda>out. (total' (breakdown out), isOverBudget out, overageAmount out))
     (budgetAgent_process NoUsableAnswer sixStops
        \<lparr>budget = 50, currency = ''USD'', startDate = None, startTime = None, endTime = None\<rparr> 2)
   = Inr (60, True, 10) \<and> (60 :: real) \<le> 50 * 2"
  by (simp add: budgetAgent_process_def sixStops_breakdown optimizeBudget_def)

lemma optimizeStep_cases:
  "(\<exists>k. optimizeStep n ov l (opt, s) = (opt\<lparr>keep := keep opt @ [k]\<rparr>, s) \<and> location k = l) \<or>
   (\<exists>r s'. optimizeStep n ov l (opt, s) = (opt\<lparr>replace := replace opt @ [r]\<rparr>, s') \<and> original r = l) \<or>
   (\<exists>m s'. optimizeStep n ov l (opt, s) = (opt\<lparr>remove' := remove' opt @ [m]\<rparr>, s') \<and> location m = l)"
  by (force simp add: optimizeStep_def Let_def)

text \<open>
  The loop of \<open>simpleOptimization\<close> gives every location it visits one verdict, and each of
  the three lists grows in the order of the visit.
\<close>

lemma fold_optimizeStep:
  "\<exists>ks rs ms s'. fold (optimizeStep n ov) xs (opt, s) =
       (\<lparr>keep = keep opt @ ks, replace = replace opt @ rs, remove' = remove' opt @ ms\<rparr>, s') \<and>
     subseq (map location ks) xs \<and> subseq (map original rs) xs \<and> subseq (map location ms) xs \<and>
     mset (map location ks) + mset (map original rs) + mset (map location ms) = mset xs"
proof (induction xs arbitrary: opt s)
  case Nil
  show ?case by simp
next
  case (Cons x xs)
  from optimizeStep_cases [of n ov x opt s]
  consider (K) k where "optimizeStep n ov x (opt, s) = (opt\<lparr>keep := keep opt @ [k]\<rparr>, s)" "location k = x"
    | (R) r s1 where "optimizeStep n ov x (opt, s) = (opt\<lparr>replace := replace opt @ [r]\<rparr>, s1)" "original r = x"
    | (M) m s1 where "optimizeStep n ov x (opt, s) = (opt\<lparr>remove' := remove' opt @ [m]\<rparr>, s1)" "location m = x"
    by blast
  then show ?case
  proof cases
    case K
    from Cons.IH [of "opt\<lparr>keep := keep opt @ [k]\<rparr>" s] obtain ks rs ms s' where
      h: "fold (optimizeStep n ov) xs (opt\<lparr>keep := keep opt @ [k]\<rparr>, s) =
            (\<lparr>keep = (keep opt @ [k]) @ ks, replace = replace opt @ rs, remove' = remove' opt @ ms\<rparr>, s')"
         "subseq (map location ks) xs" "subseq (map original rs) xs" "subseq (map location ms) xs"
         "mset (map location ks) + mset (map original rs) + mset (map location ms) = mset xs"
      by auto
    show ?thesis
      apply (rule exI [of _ "k # ks"], rule exI [of _ rs], rule exI [of _ ms], rule exI [of _ s'])
      using h K by (simp add: list_emb_Cons)
  next
    case R
    from Cons.IH [of "opt\<lparr>replace := replace opt @ [r]\<rparr>" s1] obtain ks rs ms s' where
      h: "fold (optimizeStep n ov) xs (opt\<lparr>replace := replace opt @ [r]\<rparr>, s1) =
            (\<lparr>keep = keep opt @ ks, replace = (replace opt @ [r]) @ rs, remove' = remove' opt @ ms\<rparr>, s')"
         "subseq (map location ks) xs" "subseq (map original rs) xs" "subseq (map location ms) xs"
         "mset (map location ks) + mset (map original rs) + mset (map location ms) = mset xs"
      by auto
    show ?thesis
      apply (rule exI [of _ ks], rule exI [of _ "r # rs"], rule exI [of _ ms], rule exI [of _ s'])
      using h R by (simp add: list_emb_Cons)
  next
    case M
    from Cons.IH [of "opt\<lparr>remove' := remove' opt @ [m]\<rparr>" s1] obtain ks rs ms s' where
      h: "fold (optimizeStep n ov) xs (opt\<lparr>remove' := remove' opt @ [m]\<rparr>, s1) =
            (\<lparr>keep = keep opt @ ks, replace = replace opt @ rs, remove' = (remove' opt @ [m]) @ ms\<rparr>, s')"
         "subseq (map location ks) xs" "subseq (map original rs) xs" "subseq (map location ms) xs"
         "mset (map location ks) + mset (map original rs) + mset (map location ms) = mset xs"
      by auto
    show ?thesis
      apply (rule exI [of _ ks], rule exI [of _ rs], rule exI [of _ "m # ms"], rule exI [of _ s'])
      using h M by (simp add: list_emb_Cons)
  qed
qed

lemma simpleOptimization_verdicts:
  "subseq (map location (keep (simpleOptimization locs t b))) (sortByCostDesc locs) \<and>
   subseq (map original (replace (simpleOptimization locs t b))) (sortByCostDesc locs) \<and>
   subseq (map location (remove' (simpleOptimization locs t b))) (sortByCostDesc locs) \<and>
   mset (map location (keep (simpleOptimization locs t b))) +
   mset (map original (replace (simpleOptimization locs t b))) +
   mset (map location (remove' (simpleOptimization locs t b))) = mset locs"
proof -
  obtain ks rs ms s' where
    h: "fold (optimizeStep (length locs) (t - b)) (sortByCostDesc locs)
          (\<lparr>keep = [], replace = [], remove' = []\<rparr>, 0) =
          (\<lparr>keep = [] @ ks, replace = [] @ rs, remove' = [] @ ms\<rparr>, s')"
       "subseq (map location ks) (sortByCostDesc locs)" "subseq (map original rs) (sortByCostDesc locs)"
       "subseq (map location ms) (sortByCostDesc locs)"
       "mset (map location ks) + mset (map original rs) + mset (map location ms) =
          mset (sortByCostDesc locs)"
    using fold_optimizeStep [of "length locs" "t - b" "sortByCostDesc locs"
        "\<lparr>keep = [], replace = [], remove' = []\<rparr>" 0]
    by auto
  have "simpleOptimization locs t b = \<lparr>keep = ks, replace = rs, remove' = ms\<rparr>"
    using h(1) by (simp add: simpleOptimization_def)
  then show ?thesis using h(2-5) by (simp add: sortByCostDesc_def)
qed

text \<open>The sort keeps locations of equal cost in their input order, and the costs descend.\<close>

lemma sortByCostDesc_stable:
  "filter (\<lambda>l. costOrZero l = c) (sortByCostDesc locs) = filter (\<lambda>l. costOrZero l = c) locs"
  using sort_key_stable [of "\<lambda>l. - costOrZero l" "- c" locs] by (simp add: sortByCostDesc_def)

lemma sortByCostDesc_descending:
  "sorted_wrt (\<lambda>a b. costOrZero a \<ge> costOrZero b) (sortByCostDesc locs)"
  using sorted_sort_key [of "\<lambda>l. - costOrZero l" locs]
  by (simp add: sortByCostDesc_def sorted_wrt_map)

lemma subseq_sorted_wrt:
  "subseq xs ys \<Longrightarrow> sorted_wrt P ys \<Longrightarrow> sorted_wrt P xs"
proof (induction rule: list_emb.induct)
  case (list_emb_Nil ys)
  show ?case by simp
next
  case (list_emb_Cons xs ys y)
  then show ?case by simp
next
  case (list_emb_Cons2 x y xs ys)
  have "set xs \<subseteq> set ys"
    using list_emb_Cons2.hyps(2) by (auto elim: list_emb_set)
  with list_emb_Cons2 show ?case by auto
qed

text \<open>
  C8. \<open>simpleOptimization\<close> is a function of the location list, the current total and the
  target budget alone: equal inputs give equal keep, replace and remove lists. Every
  location receives exactly one of the three verdicts. Each of the three lists is in
  descending order of cost, and among the locations of any one cost \<open>c\<close> it follows the
  order of the input list.
\<close>

theorem simpleOptimization_stable_order:
  "(let out = simpleOptimization locs currentTotal targetBudget;
        kept = map location (keep out);
        replaced = map original (replace out);
        removed = map location (remove' out)
    in (locs' = locs \<and> currentTotal' = currentTotal \<and> targetBudget' = targetBudget \<longrightarrow>
          simpleOptimization locs' currentTotal' targetBudget' = out) \<and>
       mset kept + mset replaced + mset removed = mset locs \<and>
       (\<forall>ys \<in> {kept, replaced, removed}.
          subseq (filter (\<lambda>l. costOrZero l = c) ys) (filter (\<lambda>l. costOrZero l = c) locs) \<and>
          sorted_wrt (\<lambda>a b. costOrZero a \<ge> costOrZero b) ys))"
proof -
  note v = simpleOptimization_verdicts [of locs currentTotal targetBudget]
  have st: "subseq ys (sortByCostDesc locs) \<Longrightarrow>
        subseq (filter (\<lambda>l. costOrZero l = c) ys) (filter (\<lambda>l. costOrZero l = c) locs) \<and>
        sorted_wrt (\<lambda>a b. costOrZero a \<ge> costOrZero b) ys" for ys
    using subseq_filter [of ys "sortByCostDesc locs" "\<lambda>l. costOrZero l = c"]
      subseq_sorted_wrt [of ys "sortByCostDesc locs", OF _ sortByCostDesc_descending]
    by (simp add: sortByCostDesc_stable)
  show ?thesis using v st by (simp add: Let_def)
qed

text \<open>
  Two cafes of the same cost 15, over budget by 13: both are kept, the first of the input
  first.
\<close>

theorem simpleOptimization_stable_order_witness:
  "map (\<lambda>k. id' (location k)) (keep (simpleOptimization twoCafes 33 20)) = [''c1'', ''c2''] \<and>
   subseq (filter (\<lambda>l. costOrZero l = 15) (map location (keep (simpleOptimization twoCafes 33 20))))
     (filter (\<lambda>l. costOrZero l = 15) twoCafes)"
  using simpleOptimization_stable_order [where locs = twoCafes and locs' = twoCafes
      and currentTotal = 33 and currentTotal' = 33 and targetBudget = 20 and targetBudget' = 20
      and c = 15]
  by (simp add: Let_def simpleOptimization_def sortByCostDesc_def twoCafes_def optimizeStep_def
      costOrZero_def)

section \<open>Properties of the centroids\<close>

lemma sumCoordinates_fold:
  "fold (\<lambda>coord acc. \<lparr>lat = lat acc + lat coord, lng = lng acc + lng coord\<rparr>) cs a
     = \<lparr>lat = lat a + sum_list (map lat cs), lng = lng a + sum_list (map lng cs)\<rparr>"
  by (induction cs arbitrary: a) (simp_all add: add.assoc)

lemma sumCoordinates_eq:
  "sumCoordinates cs = \<lparr>lat = sum_list (map lat cs), lng = sum_list (map lng cs)\<rparr>"
  by (simp add: sumCoordinates_def sumCoordinates_fold)

text \<open>
  C9 (as amended). Neither centroid function takes a default from its caller. On an empty
  sequence of points \<open>LocationAgent.calculateCentroid\<close> returns the fixed point
  (35.6762, 139.6503), and \<open>ClusteringAgent.calculateCentroid\<close> returns the fixed point
  (0, 0) when no location has coordinates; neither produces a division by zero. On any
  other input each returns the arithmetic mean of the latitudes and of the longitudes.
\<close>

theorem centroid_fixed_default_or_mean:
  "locationAgent_calculateCentroid cs =
     (if cs = [] then \<lparr>lat = 35.6762, lng = 139.6503\<rparr>
      else \<lparr>lat = sum_list (map lat cs) / real (length cs),
            lng = sum_list (map lng cs) / real (length cs)\<rparr>) \<and>
   calculateCentroid locs =
     (if validCoords locs = [] then \<lparr>lat = 0, lng = 0\<rparr>
      else \<lparr>lat = sum_list (map lat (validCoords locs)) / real (length (validCoords locs)),
            lng = sum_list (map lng (validCoords locs)) / real (length (validCoords locs))\<rparr>)"
  by (simp add: locationAgent_calculateCentroid_def calculateCentroid_def sumCoordinates_eq Let_def)

text \<open>
  C9 as stated fails: a caller that wants the centre of Paris as the default for an empty
  input gets (0, 0) from the clustering agent and Tokyo from the location agent.
\<close>

theorem centroid_default_counterexample:
  "calculateCentroid [] = \<lparr>lat = 0, lng = 0\<rparr> \<and>
   calculateCentroid [] \<noteq> \<lparr>lat = 48.8566, lng = 2.3522\<rparr> \<and>
   locationAgent_calculateCentroid [] = \<lparr>lat = 35.6762, lng = 139.6503\<rparr> \<and>
   locationAgent_calculateCentroid [] \<noteq> \<lparr>lat = 48.8566, lng = 2.3522\<rparr>"
  by (simp add: locationAgent_calculateCentroid_def calculateCentroid_def validCoords_def)

section \<open>Routing within a cluster\<close>

lemma set_fold_setAdd: "set (fold setAdd xs s) = set s \<union> set xs"
  by (induction xs arbitrary: s) (auto simp: setAdd_def)

lemma distinct_fold_setAdd: "distinct s \<Longrightarrow> distinct (fold setAdd xs s)"
  by (induction xs arbitrary: s) (auto simp: setAdd_def)

lemma fold_setAdd_distinct: "distinct (s @ xs) \<Longrightarrow> fold setAdd xs s = s @ xs"
  by (induction xs arbitrary: s) (auto simp: setAdd_def)

lemma set_newSet: "set (newSet xs) = set xs"
  by (simp add: newSet_def set_fold_setAdd)

lemma distinct_newSet: "distinct (newSet xs)"
  by (simp add: newSet_def distinct_fold_setAdd)

lemma newSet_distinct: "distinct xs \<Longrightarrow> newSet xs = xs"
  using fold_setAdd_distinct [of "[]" xs] by (simp add: newSet_def)

lemma mset_newSet: "mset (newSet xs) = mset (remdups xs)"
  using set_newSet [of xs] distinct_newSet [of xs]
  by (simp add: set_eq_iff_mset_eq_distinct [symmetric])

lemma scanNearest_fold_in_set:
  "fold (scanNearest hav h cur) xs best = Some (n, d) \<Longrightarrow> n \<in> set xs \<or> best = Some (n, d)"
proof (induction xs arbitrary: best)
  case Nil
  then show ?case by simp
next
  case (Cons x xs)
  from Cons.IH [OF Cons.prems [simplified]]
  show ?case
    by (auto simp: scanNearest_def split: option.splits if_splits prod.splits)
qed

lemma findNearest_in_set:
  "findNearest hav h cur xs = Some n \<Longrightarrow> n \<in> set xs"
  using scanNearest_fold_in_set [of hav h cur xs None n]
  by (auto simp: findNearest_def)

lemma mset_setDelete:
  "distinct xs \<Longrightarrow> n \<in> set xs \<Longrightarrow> add_mset n (mset (setDelete n xs)) = mset xs"
  by (simp add: setDelete_def distinct_remove1_removeAll [symmetric])

lemma mset_routeLoop:
  "distinct remaining \<Longrightarrow> mset (routeLoop hav h ordered remaining) = mset ordered + mset remaining"
proof (induction hav h ordered remaining rule: routeLoop.induct)
  case (1 hav h ordered remaining)
  show ?case
  proof (cases "remaining = []")
    case True
    then show ?thesis by (simp add: routeLoop.simps)
  next
    case ne: False
    show ?thesis
    proof (cases "findNearest hav h (last ordered) remaining")
      case None
      with ne show ?thesis by (simp add: routeLoop.simps [of hav h ordered remaining])
    next
      case (Some n)
      then have n: "n \<in> set remaining" by (rule findNearest_in_set)
      have "distinct (setDelete n remaining)"
        using "1.prems" by (simp add: setDelete_def distinct_removeAll)
      from "1.IH" [OF ne Some this] mset_setDelete [OF "1.prems" n] ne Some show ?thesis
        by (simp add: routeLoop.simps [of hav h ordered remaining])
    qed
  qed
qed

lemma mset_optimizeClusterOrder:
  "mset (optimizeClusterOrder hav h locs) =
     (if length locs \<le> 2 then mset locs else add_mset (hd locs) (mset (remdups (tl locs))))"
  by (simp add: optimizeClusterOrder_def mset_routeLoop distinct_newSet mset_newSet)

lemma mset_optimizeClusterOrder_distinct:
  assumes "distinct locs"
  shows "mset (optimizeClusterOrder hav h locs) = mset locs"
proof (cases locs)
  case Nil
  then show ?thesis by (simp add: optimizeClusterOrder_def)
next
  case (Cons x xs)
  with assms show ?thesis by (simp add: mset_optimizeClusterOrder distinct_remdups_id)
qed


section \<open>Clustering by proximity\<close>

lemma gatherStep_cases:
  "gatherStep hav seed x (ms, du, as) = (ms, du, as) \<and>
     (\<forall>c. coordinates x = Some c \<longrightarrow> withinRadius hav seed c \<longrightarrow> id' x \<in> as)
   \<or> gatherStep hav seed x (ms, du, as) = (ms @ [x], du + estimateDuration x, insert (id' x) as) \<and>
     coordinates x \<noteq> None \<and> id' x \<notin> as"
  by (auto simp: gatherStep_def split: option.splits)

lemma fold_gatherStep:
  "fold (gatherStep hav seed) xs (ms0, du0, as0) = (ms, du, as) \<Longrightarrow>
   \<exists>added. ms = ms0 @ added \<and> as = as0 \<union> id' ` set added \<and>
     set added \<subseteq> {l \<in> set xs. coordinates l \<noteq> None} \<and>
     distinct (map id' added) \<and> id' ` set added \<inter> as0 = {} \<and>
     (\<forall>p\<in>set xs. \<forall>c. coordinates p = Some c \<longrightarrow> withinRadius hav seed c \<longrightarrow> id' p \<in> as)"
proof (induction xs arbitrary: ms0 du0 as0)
  case Nil
  then show ?case by simp
next
  case (Cons x xs)
  from gatherStep_cases [of hav seed x ms0 du0 as0]
  consider (same) "gatherStep hav seed x (ms0, du0, as0) = (ms0, du0, as0)"
      "\<forall>c. coordinates x = Some c \<longrightarrow> withinRadius hav seed c \<longrightarrow> id' x \<in> as0"
    | (add) "gatherStep hav seed x (ms0, du0, as0) = (ms0 @ [x], du0 + estimateDuration x, insert (id' x) as0)"
      "coordinates x \<noteq> None" "id' x \<notin> as0"
    by blast
  then show ?case
  proof cases
    case same
    with Cons.prems have "fold (gatherStep hav seed) xs (ms0, du0, as0) = (ms, du, as)" by simp
    from Cons.IH [OF this] obtain added where
      a: "ms = ms0 @ added" "as = as0 \<union> id' ` set added"
         "set added \<subseteq> {l \<in> set xs. coordinates l \<noteq> None}"
         "distinct (map id' added)" "id' ` set added \<inter> as0 = {}"
         "\<forall>p\<in>set xs. \<forall>c. coordinates p = Some c \<longrightarrow> withinRadius hav seed c \<longrightarrow> id' p \<in> as"
      by blast
    have "\<forall>c. coordinates x = Some c \<longrightarrow> withinRadius hav seed c \<longrightarrow> id' x \<in> as"
      using same(2) a(2) by blast
    with a show ?thesis by (intro exI [of _ added]) auto
  next
    case add
    with Cons.prems have
      "fold (gatherStep hav seed) xs (ms0 @ [x], du0 + estimateDuration x, insert (id' x) as0) = (ms, du, as)"
      by simp
    from Cons.IH [OF this] obtain added where
      a: "ms = (ms0 @ [x]) @ added" "as = insert (id' x) as0 \<union> id' ` set added"
         "set added \<subseteq> {l \<in> set xs. coordinates l \<noteq> None}"
         "distinct (map id' added)" "id' ` set added \<inter> insert (id' x) as0 = {}"
         "\<forall>p\<in>set xs. \<forall>c. coordinates p = Some c \<longrightarrow> withinRadius hav seed c \<longrightarrow> id' p \<in> as"
      by blast
    have "id' x \<in> as" using a(2) by simp
    with a add show ?thesis by (intro exI [of _ "x # added"]) auto
  qed
qed


lemma clusterStep_cases:
  assumes "l \<in> set locs"
  shows "clusterStep hav locs l (cl, as) = (cl, as) \<and> (coordinates l \<noteq> None \<longrightarrow> id' l \<in> as)
   \<or> (\<exists>c. clusterStep hav locs l (cl, as) = (cl @ [c], as \<union> id' ` set (locations c)) \<and>
          l \<in> set (locations c) \<and>
          set (locations c) \<subseteq> {l \<in> set locs. coordinates l \<noteq> None} \<and>
          distinct (map id' (locations c)) \<and> id' ` set (locations c) \<inter> as = {} \<and>
          seeded hav locs as c)"
proof (cases "coordinates l")
  case None
  then show ?thesis by (simp add: clusterStep_def)
next
  case (Some cs)
  show ?thesis
  proof (cases "id' l \<in> as")
    case True
    with Some show ?thesis by (simp add: clusterStep_def)
  next
    case False
    obtain ms du as' where
      f: "fold (gatherStep hav cs) locs ([l], estimateDuration l, insert (id' l) as) = (ms, du, as')"
      by (metis prod_cases3)
    from fold_gatherStep [OF f] obtain added where
      a: "ms = [l] @ added" "as' = insert (id' l) as \<union> id' ` set added"
         "set added \<subseteq> {l \<in> set locs. coordinates l \<noteq> None}"
         "distinct (map id' added)" "id' ` set added \<inter> insert (id' l) as = {}"
         "\<forall>p\<in>set locs. \<forall>c. coordinates p = Some c \<longrightarrow> withinRadius hav cs c \<longrightarrow> id' p \<in> as'"
      by blast
    define c where "c = \<lparr>clusterId = ''cluster-'' @ intToString (int (length cl) + 1),
        centroid = calculateCentroid ms, locations = ms, suggestedDuration = du\<rparr>"
    have lc: "locations c = l # added" by (simp add: c_def a(1))
    have step: "clusterStep hav locs l (cl, as) = (cl @ [c], as')"
      using Some False f by (simp add: clusterStep_def c_def)
    have as': "as' = as \<union> id' ` set (locations c)" using a(2) lc by auto
    have sub: "set (locations c) \<subseteq> {l \<in> set locs. coordinates l \<noteq> None}"
      using a(3) lc assms Some by auto
    have dis: "distinct (map id' (locations c))" using a(4,5) lc by auto
    have dj: "id' ` set (locations c) \<inter> as = {}" using a(5) lc False by auto
    have sd: "seeded hav locs as c"
      unfolding seeded_def using lc Some a(6) as' by auto
    show ?thesis
      using step as' lc sub dis dj sd by (intro disjI2 exI [of _ c]) simp
  qed
qed

lemma fold_clusterStep:
  "fold (clusterStep hav locs) xs (cl0, as0) = (cl, as) \<Longrightarrow> set xs \<subseteq> set locs \<Longrightarrow>
   \<exists>new. cl = cl0 @ new \<and> as = as0 \<union> id' ` set (members new) \<and>
     set (members new) \<subseteq> {l \<in> set locs. coordinates l \<noteq> None} \<and>
     distinct (map id' (members new)) \<and> id' ` set (members new) \<inter> as0 = {} \<and>
     (\<forall>l\<in>set xs. coordinates l \<noteq> None \<longrightarrow> id' l \<in> as) \<and>
     (\<forall>k<length new. seeded hav locs (as0 \<union> id' ` set (members (take k new))) (new ! k))"
proof (induction xs arbitrary: cl0 as0)
  case Nil
  then show ?case by (simp add: members_def)
next
  case (Cons x xs)
  have xin: "x \<in> set locs" and xs: "set xs \<subseteq> set locs" using Cons.prems(2) by auto
  from clusterStep_cases [OF xin, of hav cl0 as0]
  consider (same) "clusterStep hav locs x (cl0, as0) = (cl0, as0)" "coordinates x \<noteq> None \<longrightarrow> id' x \<in> as0"
    | (add) c where "clusterStep hav locs x (cl0, as0) = (cl0 @ [c], as0 \<union> id' ` set (locations c))"
        "x \<in> set (locations c)"
        "set (locations c) \<subseteq> {l \<in> set locs. coordinates l \<noteq> None}"
        "distinct (map id' (locations c))" "id' ` set (locations c) \<inter> as0 = {}"
        "seeded hav locs as0 c"
    by blast
  then show ?case
  proof cases
    case same
    with Cons.prems have "fold (clusterStep hav locs) xs (cl0, as0) = (cl, as)" by simp
    from Cons.IH [OF this xs] obtain new where
      n: "cl = cl0 @ new" "as = as0 \<union> id' ` set (members new)"
         "set (members new) \<subseteq> {l \<in> set locs. coordinates l \<noteq> None}"
         "distinct (map id' (members new))" "id' ` set (members new) \<inter> as0 = {}"
         "\<forall>l\<in>set xs. coordinates l \<noteq> None \<longrightarrow> id' l \<in> as"
         "\<forall>k<length new. seeded hav locs (as0 \<union> id' ` set (members (take k new))) (new ! k)"
      by blast
    have "coordinates x \<noteq> None \<longrightarrow> id' x \<in> as" using same(2) n(2) by blast
    with n show ?thesis by (intro exI [of _ new]) simp
  next
    case add
    with Cons.prems have
      "fold (clusterStep hav locs) xs (cl0 @ [c], as0 \<union> id' ` set (locations c)) = (cl, as)" by simp
    from Cons.IH [OF this xs] obtain new where
      n: "cl = (cl0 @ [c]) @ new" "as = (as0 \<union> id' ` set (locations c)) \<union> id' ` set (members new)"
         "set (members new) \<subseteq> {l \<in> set locs. coordinates l \<noteq> None}"
         "distinct (map id' (members new))"
         "id' ` set (members new) \<inter> (as0 \<union> id' ` set (locations c)) = {}"
         "\<forall>l\<in>set xs. coordinates l \<noteq> None \<longrightarrow> id' l \<in> as"
         "\<forall>k<length new. seeded hav locs
            ((as0 \<union> id' ` set (locations c)) \<union> id' ` set (members (take k new))) (new ! k)"
      by blast
    have m: "members (c # new) = locations c @ members new" by (simp add: members_def)
    have 1: "cl = cl0 @ (c # new)" using n(1) by simp
    have 2: "as = as0 \<union> id' ` set (members (c # new))" using n(2) m by auto
    have 3: "set (members (c # new)) \<subseteq> {l \<in> set locs. coordinates l \<noteq> None}"
      using n(3) add(3) m by auto
    have 4: "distinct (map id' (members (c # new)))"
      using n(4,5) add(4) m by auto
    have 5: "id' ` set (members (c # new)) \<inter> as0 = {}"
      using n(5) add(5) m by auto
    have 6: "\<forall>l\<in>set (x # xs). coordinates l \<noteq> None \<longrightarrow> id' l \<in> as"
      using n(6) add(2) 2 m by auto
    have 7: "\<forall>k<length (c # new). seeded hav locs
               (as0 \<union> id' ` set (members (take k (c # new)))) ((c # new) ! k)"
    proof (intro allI impI)
      fix k assume k: "k < length (c # new)"
      show "seeded hav locs (as0 \<union> id' ` set (members (take k (c # new)))) ((c # new) ! k)"
      proof (cases k)
        case 0
        then show ?thesis using add(6) by (simp add: members_def)
      next
        case (Suc j)
        then have j: "j < length new" using k by simp
        have "as0 \<union> id' ` set (members (take k (c # new))) =
              (as0 \<union> id' ` set (locations c)) \<union> id' ` set (members (take j new))"
          using Suc by (auto simp: members_def)
        with n(7) j Suc show ?thesis by simp
      qed
    qed
    show ?thesis using 1 2 3 4 5 6 7 by (intro exI [of _ "c # new"]) blast
  qed
qed

lemma clusterByProximity_inv:
  "set (members (clusterByProximity hav locs)) \<subseteq> {l \<in> set locs. coordinates l \<noteq> None} \<and>
   distinct (map id' (members (clusterByProximity hav locs))) \<and>
   (\<forall>l\<in>set locs. coordinates l \<noteq> None \<longrightarrow> id' l \<in> id' ` set (members (clusterByProximity hav locs))) \<and>
   (\<forall>k<length (clusterByProximity hav locs).
      seeded hav locs (id' ` set (members (take k (clusterByProximity hav locs))))
        (clusterByProximity hav locs ! k))"
proof -
  obtain cl as where f: "fold (clusterStep hav locs) locs ([], {}) = (cl, as)"
    by (metis surj_pair)
  from fold_clusterStep [OF f] obtain new where
    n: "cl = [] @ new" "as = {} \<union> id' ` set (members new)"
       "set (members new) \<subseteq> {l \<in> set locs. coordinates l \<noteq> None}"
       "distinct (map id' (members new))"
       "\<forall>l\<in>set locs. coordinates l \<noteq> None \<longrightarrow> id' l \<in> as"
       "\<forall>k<length new. seeded hav locs ({} \<union> id' ` set (members (take k new))) (new ! k)"
    by blast
  have "clusterByProximity hav locs = new" using f n(1) by (simp add: clusterByProximity_def)
  with n show ?thesis by simp
qed

text \<open>
  C4 (as amended). For every input whose ids are pairwise distinct, the members of the
  clusters of \<open>clusterByProximity\<close>, taken together, are exactly the locations of the input
  that have coordinates, each once: none is dropped, none is in two clusters or twice in
  one, and no location without coordinates is in a cluster.
\<close>

theorem cluster_partition_distinct_ids:
  assumes "distinct (map id' locs)"
  shows "mset (concat (map locations (clusterByProximity hav locs))) =
         mset (filter (\<lambda>l. coordinates l \<noteq> None) locs)"
proof -
  let ?M = "members (clusterByProximity hav locs)"
  note inv = clusterByProximity_inv [of hav locs]
  have dM: "distinct ?M" using inv by (auto simp: distinct_map)
  have inj: "inj_on id' (set locs)" using assms by (simp add: distinct_map)
  have "set ?M = set (filter (\<lambda>l. coordinates l \<noteq> None) locs)"
  proof
    show "set ?M \<subseteq> set (filter (\<lambda>l. coordinates l \<noteq> None) locs)" using inv by auto
  next
    show "set (filter (\<lambda>l. coordinates l \<noteq> None) locs) \<subseteq> set ?M"
    proof
      fix l assume "l \<in> set (filter (\<lambda>l. coordinates l \<noteq> None) locs)"
      then have l: "l \<in> set locs" "coordinates l \<noteq> None" by auto
      with inv obtain m where m: "m \<in> set ?M" "id' m = id' l" by auto
      then have "m \<in> set locs" using inv by auto
      with inj l(1) m(2) have "m = l" by (auto dest: inj_onD)
      with m(1) show "l \<in> set ?M" by simp
    qed
  qed
  moreover have "distinct (filter (\<lambda>l. coordinates l \<noteq> None) locs)"
    using assms by (simp add: distinct_map)
  ultimately have "mset ?M = mset (filter (\<lambda>l. coordinates l \<noteq> None) locs)"
    using dM set_eq_iff_mset_eq_distinct by blast
  then show ?thesis by (simp add: members_def)
qed

theorem cluster_partition_distinct_ids_witness:
  "distinct (map id' [mockA, noCoordinates]) \<and>
   mset (concat (map locations (clusterByProximity haversineDistance [mockA, noCoordinates]))) =
   mset (filter (\<lambda>l. coordinates l \<noteq> None) [mockA, noCoordinates])"
  using cluster_partition_distinct_ids [of "[mockA, noCoordinates]" haversineDistance]
  by (simp add: mockA_def noCoordinates_def)

text \<open>
  C4 as stated fails on two locations that carry the same id: the second has coordinates
  and is in no cluster.
\<close>

theorem cluster_partition_counterexample:
  "concat (map locations (clusterByProximity haversineDistance [mockA, mockB])) = [mockA] \<and>
   mockB \<noteq> mockA \<and> coordinates mockB \<noteq> None"
  by (simp add: clusterByProximity_def clusterStep_def gatherStep_def mockA_def mockB_def)

text \<open>
  The members of a cluster carry pairwise distinct ids, whatever the input is, so that
  \<open>ClusteringAgent.process\<close> routes arrays of distinct objects and loses none of them.
\<close>

lemma cluster_members_distinct:
  assumes "c \<in> set (clusterByProximity hav locs)"
  shows "distinct (map id' (locations c)) \<and> distinct (locations c)"
proof -
  have "distinct (map id' (members (clusterByProximity hav locs)))"
    using clusterByProximity_inv [of hav locs] by blast
  then have "distinct (concat (map (map id' \<circ> locations) (clusterByProximity hav locs)))"
    by (simp add: members_def map_concat)
  then have "distinct (map id' (locations c))"
    using assms by (auto simp: distinct_concat_iff)
  then show ?thesis by (simp add: distinct_map)
qed

lemma cluster_route_permutation:
  assumes "c \<in> set (clusterByProximity hav locs)"
  shows "mset (optimizeClusterOrder hav (\<lambda>l. l) (locations c)) = mset (locations c)"
  using cluster_members_distinct [OF assms] by (simp add: mset_optimizeClusterOrder_distinct)

section \<open>The haversine formula over the reals\<close>

lemma haversine_same_point: "haversineDistance c c = Some 0"
  by (simp add: haversineDistance_def toRad_def atan2_def)

lemma arctan_abs_sin_over_cos:
  assumes "\<bar>u\<bar> < pi / 2"
  shows "arctan (\<bar>sin u\<bar> / cos u) = \<bar>u\<bar>"
proof (cases "0 \<le> u")
  case True
  then have "0 \<le> sin u" using assms by (intro sin_ge_zero) auto
  then have "\<bar>sin u\<bar> / cos u = tan u" by (simp add: tan_def)
  moreover have "arctan (tan u) = u" using assms True by (intro arctan_tan) auto
  ultimately show ?thesis using True by simp
next
  case False
  then have "0 \<le> sin (- u)" using assms by (intro sin_ge_zero) auto
  then have "\<bar>sin u\<bar> / cos u = tan (- u)" by (simp add: tan_def)
  moreover have "arctan (tan (- u)) = - u" using assms False by (intro arctan_tan) auto
  ultimately show ?thesis using False by simp
qed

text \<open>
  Along a meridian the formula gives the arc length: 6371 km times the difference of the
  latitudes in radians.
\<close>

lemma haversine_meridian:
  assumes "\<bar>y - x\<bar> < 180"
  shows "haversineDistance \<lparr>lat = x, lng = g\<rparr> \<lparr>lat = y, lng = g\<rparr> = Some (6371 * (\<bar>y - x\<bar> * (pi / 180)))"
proof -
  define u where "u = (y - x) * (pi / 180) / 2"
  have u: "\<bar>u\<bar> < pi / 2"
  proof -
    have "\<bar>u\<bar> = \<bar>y - x\<bar> * (pi / 360)" by (simp add: u_def abs_mult)
    also have "\<dots> < 180 * (pi / 360)" using assms by (intro mult_strict_right_mono) auto
    finally show ?thesis by simp
  qed
  then have c: "0 < cos u" by (intro cos_gt_zero_pi) auto
  have s1: "sqrt (sin u * sin u) = \<bar>sin u\<bar>" by simp
  have "1 - sin u * sin u = cos u * cos u"
    using sin_cos_squared_add3 [of u] by (simp add: algebra_simps)
  then have s2: "sqrt (1 - sin u * sin u) = cos u" using c by simp
  have a: "atan2 \<bar>sin u\<bar> (cos u) = \<bar>u\<bar>"
    using c arctan_abs_sin_over_cos [OF u] by (simp add: atan2_def)
  have e: "toRad (y - x) / 2 = u" by (simp add: toRad_def u_def)
  have "haversineDistance \<lparr>lat = x, lng = g\<rparr> \<lparr>lat = y, lng = g\<rparr> =
          Some (6371 * (2 * atan2 (sqrt (sin u * sin u)) (sqrt (1 - sin u * sin u))))"
    apply (simp only: haversineDistance_def Let_def Coordinates.select_convs e)
    apply (simp add: toRad_def)
    done
  then have "haversineDistance \<lparr>lat = x, lng = g\<rparr> \<lparr>lat = y, lng = g\<rparr> = Some (6371 * (2 * \<bar>u\<bar>))"
    by (simp only: s1 s2 a)
  moreover have "2 * \<bar>u\<bar> = \<bar>y - x\<bar> * (pi / 180)" by (simp add: u_def abs_mult)
  ultimately show ?thesis by simp
qed

text \<open>
  With \<open>3 \<le> pi < 4\<close>, 0.02 degrees of latitude are less than 3 km and 0.04 degrees are
  more.
\<close>

lemma pi_ge_three: "3 \<le> pi"
  using sin_x_le_x [of "pi / 6"] by (simp add: sin_30)

lemma near_far:
  "withinRadius haversineDistance cA cP"
  "\<not> withinRadius haversineDistance cA cB"
  "\<not> withinRadius haversineDistance cA cQ"
  "withinRadius haversineDistance cB cQ"
  "withinRadius haversineDistance cB cP"
  using pi_ge_three pi_less_4
  by (simp_all add: withinRadius_def cA_def cP_def cB_def cQ_def haversine_meridian CLUSTER_RADIUS_KM_def)


section \<open>Routes along the meridian\<close>








section \<open>Locations near the seed of a cluster\<close>

lemma tokyoLine_clusters:
  "map locations (clusterByProximity haversineDistance tokyoLine) = [[lA, lP], [lB, lQ]]"
  by (simp add: tokyoLine_def clusterByProximity_def clusterStep_def gatherStep_def near_far
      lA_def lP_def lB_def lQ_def)

lemma set_members_take: "set (members (take k cl)) \<subseteq> set (members cl)"
  using set_take_subset [of k cl] by (auto simp: members_def)

lemma set_locations_nth: "k < length cl \<Longrightarrow> set (locations (cl ! k)) \<subseteq> set (members cl)"
proof -
  assume "k < length cl"
  then have "cl ! k \<in> set cl" by (rule nth_mem)
  then show ?thesis by (auto simp: members_def)
qed

lemma near_seed_member:
  assumes d: "distinct (map id' locs)"
    and k: "k < length (clusterByProximity hav locs)"
    and s: "coordinates (hd (locations (clusterByProximity hav locs ! k))) = Some seed"
    and p: "p \<in> set locs" "coordinates p = Some cp" "withinRadius hav seed cp"
      "p \<notin> set (members (take k (clusterByProximity hav locs)))"
  shows "p \<in> set (locations (clusterByProximity hav locs ! k))"
proof -
  let ?cl = "clusterByProximity hav locs"
  note inv = clusterByProximity_inv [of hav locs]
  have inj: "inj_on id' (set locs)" using d by (simp add: distinct_map)
  have sub: "set (members ?cl) \<subseteq> set locs" using inv by auto
  have "seeded hav locs (id' ` set (members (take k ?cl))) (?cl ! k)" using inv k by blast
  with s p(1-3) have "id' p \<in> id' ` set (members (take k ?cl)) \<union> id' ` set (locations (?cl ! k))"
    by (auto simp: seeded_def)
  then obtain m where m: "id' m = id' p"
      "m \<in> set (members (take k ?cl)) \<or> m \<in> set (locations (?cl ! k))"
    by auto
  have "m \<in> set locs" using m(2) sub set_members_take [of k ?cl] set_locations_nth [OF k] by blast
  with inj p(1) m(1) have "m = p" by (auto dest: inj_onD)
  with m(2) p(4) show ?thesis by simp
qed

lemma haversine_same_point_near: "withinRadius haversineDistance c c"
  by (simp add: withinRadius_def haversine_same_point CLUSTER_RADIUS_KM_def)

text \<open>
  C5 (as amended). For every input with pairwise distinct ids and every cluster that
  \<open>clusterByProximity\<close> produces (the \<open>k\<close>-th, whose seed is its first member): any two
  locations of the input that have coordinates, lie within the radius of the seed and are
  not members of a cluster produced before it (the first \<open>k\<close> clusters) are both members
  of that cluster.
\<close>

theorem near_seed_same_cluster:
  assumes "distinct (map id' locs)"
    and "k < length (clusterByProximity hav locs)"
    and "coordinates (hd (locations (clusterByProximity hav locs ! k))) = Some seed"
    and "p \<in> set locs" "coordinates p = Some cp" "withinRadius hav seed cp"
      "p \<notin> set (members (take k (clusterByProximity hav locs)))"
    and "q \<in> set locs" "coordinates q = Some cq" "withinRadius hav seed cq"
      "q \<notin> set (members (take k (clusterByProximity hav locs)))"
  shows "p \<in> set (locations (clusterByProximity hav locs ! k)) \<and>
         q \<in> set (locations (clusterByProximity hav locs ! k))"
  using assms by (blast intro: near_seed_member)


text \<open>The second cluster of the four places on the meridian, with its seed and its other member.\<close>

theorem near_seed_same_cluster_witness:
  "distinct (map id' tokyoLine) \<and>
   locations (clusterByProximity haversineDistance tokyoLine ! 1) = [lB, lQ] \<and>
   withinRadius haversineDistance cB cB \<and> withinRadius haversineDistance cB cQ \<and>
   lB \<in> set (locations (clusterByProximity haversineDistance tokyoLine ! 1)) \<and>
   lQ \<in> set (locations (clusterByProximity haversineDistance tokyoLine ! 1))"
proof -
  have l: "length (clusterByProximity haversineDistance tokyoLine) = 2"
    using tokyoLine_clusters by (metis length_map length_Cons list.size(3) One_nat_def Suc_1)
  have c1: "locations (clusterByProximity haversineDistance tokyoLine ! 1) = [lB, lQ]"
    using tokyoLine_clusters l by (metis nth_map one_less_numeral_iff semiring_norm(76) nth_Cons_0 nth_Cons_Suc One_nat_def)
  have c0: "members (take 1 (clusterByProximity haversineDistance tokyoLine)) = [lA, lP]"
    using tokyoLine_clusters by (simp add: members_def take_map [symmetric])
  have d: "distinct (map id' tokyoLine)"
    by (simp add: tokyoLine_def lA_def lP_def lB_def lQ_def)
  have ne: "lB \<notin> set [lA, lP]" "lQ \<notin> set [lA, lP]"
    by (simp_all add: lA_def lP_def lB_def lQ_def)
  from near_seed_same_cluster [of tokyoLine 1 haversineDistance cB lB cB lQ cQ]
  show ?thesis
    using d l c1 c0 ne near_far haversine_same_point_near
    by (simp add: tokyoLine_def lB_def lQ_def)
qed

text \<open>
  C5 as stated fails: \<open>P\<close> and \<open>Q\<close> both lie within 3 km of \<open>B\<close>, the seed of the second
  cluster, but \<open>P\<close> was taken by the first cluster, whose seed \<open>A\<close> it is also near, and
  \<open>Q\<close> is in the second.
\<close>

theorem near_seed_counterexample:
  "map locations (clusterByProximity haversineDistance tokyoLine) = [[lA, lP], [lB, lQ]] \<and>
   coordinates lB = Some cB \<and>
   coordinates lP = Some cP \<and> withinRadius haversineDistance cB cP \<and>
   coordinates lQ = Some cQ \<and> withinRadius haversineDistance cB cQ \<and>
   lP \<notin> set [lB, lQ] \<and> lQ \<notin> set [lA, lP]"
  using tokyoLine_clusters near_far
  by (simp add: lA_def lP_def lB_def lQ_def)

section \<open>The schedule of a day\<close>

lemma natToString_digit: "n < 10 \<Longrightarrow> natToString n = [digitChar n]"
  by (simp add: natToString.simps)

lemma natToString_two:
  "10 \<le> n \<Longrightarrow> n < 100 \<Longrightarrow> natToString n = [digitChar (n div 10), digitChar (n mod 10)]"
  by (simp add: natToString.simps [of n] natToString_digit)

lemma padStart2_nat:
  "n < 100 \<Longrightarrow> padStart2 (natToString n) = [digitChar (n div 10), digitChar (n mod 10)]"
  by (cases "n < 10") (simp_all add: natToString_digit natToString_two padStart2_def digitChar_def)

lemma startHour_0900: "TripPreferences.startTime p = Some ''09:00'' \<Longrightarrow> startHourOf p = Some 9"
  by (simp add: startHourOf_def parseInt_def isWhiteSpace_def digitValue_def hexDigits_def)

lemma single_restaurant_0900:
  assumes "type l = Restaurant" "TripPreferences.startTime p = Some ''09:00''"
  shows "createDaySchedule hav [l] d p =
     (case startDate p of
        Some InvalidDate \<Rightarrow> Inl InvalidTimeValue
      | Some (EpochDay n) \<Rightarrow>
          Inr \<lparr>date = DayNumber (n + int d),
               slots = [\<lparr>locationId = id' l, startTime = ''09:00'', endTime = ''10:15'', duration = 75,
                         travelTime = Some 0, isOptimalTime = False, notes' = Some Reservation\<rparr>],
               totalDuration = Some 75, restBreaks = 0\<rparr>
      | None \<Rightarrow>
          Inr \<lparr>date = TodayPlus d,
               slots = [\<lparr>locationId = id' l, startTime = ''09:00'', endTime = ''10:15'', duration = 75,
                         travelTime = Some 0, isOptimalTime = False, notes' = Some Reservation\<rparr>],
               totalDuration = Some 75, restBreaks = 0\<rparr>)"
  using assms
  by (simp add: createDaySchedule_def startHour_0900 sortByOptimalTime_def scheduleStep_def
      estimateVisitDuration_def addMinutes_def adjustForMealTime_def isOptimalVisitTime_def hourIn_def
      generateTimeNotes_def minutesToTime_def jsRem_def intToString_def padStart2_nat digitChar_def
      split: option.splits JSDate.splits)
lemma startHour_1100: "TripPreferences.startTime p = Some ''11:00'' \<Longrightarrow> startHourOf p = Some 11"
  by (simp add: startHourOf_def parseInt_def isWhiteSpace_def digitValue_def hexDigits_def)

lemma single_restaurant_1100:
  assumes "type l = Restaurant" "TripPreferences.startTime p = Some ''11:00''"
  shows "map_sum id (map startTime \<circ> slots) (createDaySchedule hav [l] d p) =
     (if startDate p = Some InvalidDate then Inl InvalidTimeValue else Inr [''12:00''])"
  using assms
  by (simp add: createDaySchedule_def Let_def startHour_1100 sortByOptimalTime_def scheduleStep_def
      estimateVisitDuration_def addMinutes_def adjustForMealTime_def isOptimalVisitTime_def hourIn_def
      generateTimeNotes_def minutesToTime_def jsRem_def intToString_def padStart2_nat digitChar_def
      split: option.splits JSDate.splits)

lemma single_restaurant_any_hour:
  assumes "type l = Restaurant" "startHourOf p = Some h"
  shows "map_sum id (map startTime \<circ> slots) (createDaySchedule hav [l] d p) =
     (if startDate p = Some InvalidDate then Inl InvalidTimeValue
      else Inr [minutesToTime (Some (if h = 11 then 12 * 60 else if h = 17 then 18 * 60 else h * 60))])"
  using assms
  by (auto simp add: createDaySchedule_def Let_def sortByOptimalTime_def scheduleStep_def
      addMinutes_def adjustForMealTime_def split: option.splits JSDate.splits)

text \<open>
  C3 (as amended). For a day containing exactly one location of type restaurant, with the
  day clock starting at 09:00, the one slot starts at 09:00: the clock is not moved to the
  optimal start of a restaurant. The start is moved to 12:00 when the day clock starts at
  11:00, in the hour before noon. In general the slot starts at the start hour \<open>h\<close> of the
  day, except that the start hour 11 gives 12:00 and the start hour 17 gives 18:00.
  (A start date that is not a date makes the call fail.)
\<close>

theorem single_restaurant_start:
  assumes "type l = Restaurant"
  shows "(TripPreferences.startTime p = Some ''09:00'' \<longrightarrow>
            map_sum id (map startTime \<circ> slots) (createDaySchedule hav [l] d p) =
              (if startDate p = Some InvalidDate then Inl InvalidTimeValue else Inr [''09:00''])) \<and>
         (TripPreferences.startTime p = Some ''11:00'' \<longrightarrow>
            map_sum id (map startTime \<circ> slots) (createDaySchedule hav [l] d p) =
              (if startDate p = Some InvalidDate then Inl InvalidTimeValue else Inr [''12:00''])) \<and>
         (\<forall>h. startHourOf p = Some h \<longrightarrow>
            map_sum id (map startTime \<circ> slots) (createDaySchedule hav [l] d p) =
              (if startDate p = Some InvalidDate then Inl InvalidTimeValue
               else Inr [minutesToTime
                           (Some (if h = 11 then 12 * 60 else if h = 17 then 18 * 60 else h * 60))]))"
  using single_restaurant_0900 [OF assms, of p hav d] single_restaurant_1100 [OF assms, of p hav d]
    single_restaurant_any_hour [OF assms, of p _ hav d]
  by (auto split: option.splits JSDate.splits)

theorem single_restaurant_start_witness:
  "type lunchPlace = Restaurant \<and> TripPreferences.startTime nineToNine = Some ''09:00'' \<and>
   map_sum id (map startTime \<circ> slots) (createDaySchedule haversineDistance [lunchPlace] 0 nineToNine) =
     Inr [''09:00'']"
  using single_restaurant_start [of lunchPlace nineToNine haversineDistance 0]
  by (simp add: lunchPlace_def nineToNine_def)

text \<open>
  C3 as stated fails: the one restaurant of a day that starts at 09:00 is scheduled from
  09:00 to 10:15, before 12:00.
\<close>

theorem single_restaurant_counterexample:
  "createDaySchedule haversineDistance [lunchPlace] 0 nineToNine =
     Inr \<lparr>date = TodayPlus 0,
          slots = [\<lparr>locationId = ''r1'', startTime = ''09:00'', endTime = ''10:15'', duration = 75,
                    travelTime = Some 0, isOptimalTime = False, notes' = Some Reservation\<rparr>],
          totalDuration = Some 75, restBreaks = 0\<rparr> \<and>
   timeOfDay ''09:00'' = Some (9 * 60) \<and> timeOfDay ''12:00'' = Some (12 * 60) \<and>
   \<not> (12 * 60 \<le> (9 * 60 :: int))"
  using single_restaurant_0900 [of lunchPlace nineToNine haversineDistance 0]
  by (simp add: lunchPlace_def nineToNine_def timeOfDay_def parseInt_def isWhiteSpace_def
      digitValue_def hexDigits_def)


lemma estimateTravelTime_nonneg: "estimateTravelTime hav a b = Some t \<Longrightarrow> 0 \<le> t"
  by (auto simp: estimateTravelTime_def Let_def split: option.splits)

lemma adjustForMealTime_forward:
  "(if fst (adjustForMealTime l c) then snd (adjustForMealTime l c) else c) = Some m \<Longrightarrow>
   \<exists>t. c = Some t \<and> t \<le> m"
  by (auto simp: adjustForMealTime_def Let_def split: if_splits option.splits)

lemma addMinutes_Some: "addMinutes a b = Some m \<longleftrightarrow> (\<exists>x y. a = Some x \<and> b = Some y \<and> m = x + y)"
  by (auto simp: addMinutes_def split: option.splits)

lemma scheduleStep_result:
  "\<exists>slot v b'. scheduleStep hav srt i (sl, c, b) =
       (sl @ [slot], addMinutes v (Some (duration slot)), b') \<and>
     locationId slot = id' (srt ! i) \<and>
     duration slot = estimateVisitDuration (srt ! i) \<and>
     startTime slot = minutesToTime v \<and>
     endTime slot = minutesToTime (addMinutes v (Some (duration slot))) \<and>
     (\<forall>m. v = Some m \<longrightarrow> (\<exists>t. c = Some t \<and> t \<le> m))"
proof -
  define travelTime where
    "travelTime = (if i > 0 then estimateTravelTime hav (srt ! (i - 1)) (srt ! i) else Some 0)"
  define afterTravel where "afterTravel = addMinutes c travelTime"
  define restBreak where "restBreak = (i > 0 \<and> i mod 3 = 0 \<and> length sl > 0)"
  define afterBreak where "afterBreak = (if restBreak then addMinutes afterTravel (Some 20) else afterTravel)"
  define v where "v = (if fst (adjustForMealTime (srt ! i) afterBreak)
                       then snd (adjustForMealTime (srt ! i) afterBreak) else afterBreak)"
  define slot where "slot = \<lparr>locationId = id' (srt ! i),
                     startTime = minutesToTime v,
                     endTime = minutesToTime (addMinutes v (Some (estimateVisitDuration (srt ! i)))),
                     duration = estimateVisitDuration (srt ! i),
                     travelTime = travelTime,
                     isOptimalTime = isOptimalVisitTime (srt ! i) v,
                     notes' = generateTimeNotes (srt ! i) v\<rparr>"
  have step: "scheduleStep hav srt i (sl, c, b) =
      (sl @ [slot], addMinutes v (Some (duration slot)), if restBreak then b + 1 else b)"
    by (simp add: scheduleStep_def Let_def slot_def v_def afterBreak_def restBreak_def
        afterTravel_def travelTime_def)
  have tt: "travelTime = Some t \<Longrightarrow> 0 \<le> t" for t
    using estimateTravelTime_nonneg [of hav "srt ! (i - 1)" "srt ! i" t]
    by (auto simp: travelTime_def split: if_splits)
  have mono: "\<exists>t. c = Some t \<and> t \<le> m" if "v = Some m" for m
  proof -
    from that adjustForMealTime_forward [of "srt ! i" afterBreak m]
    obtain t2 where t2: "afterBreak = Some t2" "t2 \<le> m" by (auto simp: v_def)
    then obtain t1 where t1: "afterTravel = Some t1" "t1 \<le> t2"
      by (auto simp: afterBreak_def addMinutes_Some split: if_splits)
    then obtain t0 tr where "c = Some t0" "travelTime = Some tr" "t1 = t0 + tr"
      by (auto simp: afterTravel_def addMinutes_Some)
    with tt [of tr] t1 t2 show ?thesis by auto
  qed
  show ?thesis
    using step mono by (intro exI [of _ slot] exI [of _ v] exI) (simp add: slot_def)
qed

lemma fold_scheduleStep_ids:
  "n \<le> length srt \<Longrightarrow>
   map locationId (fst (fold (scheduleStep hav srt) [0 ..< n] ([], start, 0))) = map id' (take n srt)"
proof (induction n)
  case 0
  show ?case by simp
next
  case (Suc n)
  obtain sl c b where st: "fold (scheduleStep hav srt) [0 ..< n] ([], start, 0) = (sl, c, b)"
    by (metis prod_cases3)
  with Suc have ih: "map locationId sl = map id' (take n srt)" by simp
  from scheduleStep_result [of hav srt n sl c b] obtain slot v b' where
    "scheduleStep hav srt n (sl, c, b) = (sl @ [slot], addMinutes v (Some (duration slot)), b')"
    "locationId slot = id' (srt ! n)"
    by blast
  with st ih Suc.prems show ?case
    by (simp add: take_Suc_conv_app_nth)
qed

lemma createDaySchedule_ids:
  "createDaySchedule hav locs d p = Inr sch \<Longrightarrow>
   map locationId (slots sch) = map id' (sortByOptimalTime locs)"
  using fold_scheduleStep_ids [of "length (sortByOptimalTime locs)" "sortByOptimalTime locs" hav
      "map_option (\<lambda>h. h * 60) (startHourOf p)"]
  by (auto simp: createDaySchedule_def Let_def split: prod.splits option.splits JSDate.splits)

lemma createDaySchedule_Inl:
  "createDaySchedule hav locs d p = Inl e \<longleftrightarrow> startDate p = Some InvalidDate \<and> e = InvalidTimeValue"
  by (auto simp: createDaySchedule_def Let_def split: prod.splits option.splits JSDate.splits)

section \<open>The orchestrator and the budget-adjusted locations\<close>

lemma sixPlaces_clustered:
  "map locations (clusterByProximity haversineDistance sixPlaces) = [sixPlaces]"
  by (simp add: sixPlaces_def clusterByProximity_def clusterStep_def gatherStep_def
      haversine_same_point_near museum_def stall_def)

lemma findNearest_first:
  "coordinates (h cur) = Some cB \<Longrightarrow> coordinates (h x) = Some cB \<Longrightarrow>
   \<forall>y\<in>set xs. coordinates (h y) = Some cB \<Longrightarrow>
   findNearest haversineDistance h cur (x # xs) = Some x"
proof -
  assume a: "coordinates (h cur) = Some cB" "coordinates (h x) = Some cB"
    "\<forall>y\<in>set xs. coordinates (h y) = Some cB"
  have "fold (scanNearest haversineDistance h cur) xs (Some (x, 0)) = Some (x, 0)"
    using a(1,3) by (induction xs) (simp_all add: scanNearest_def haversine_same_point)
  then show ?thesis using a(1,2)
    by (simp add: findNearest_def scanNearest_def haversine_same_point)
qed

lemma sixPlaces_routed: "optimizeClusterOrder haversineDistance (\<lambda>l. l) sixPlaces = sixPlaces"
  apply (simp add: optimizeClusterOrder_def sixPlaces_def newSet_def setAdd_def stall_def)
  apply (subst routeLoop.simps, simp add: findNearest_first museum_def setDelete_def)+
  done


lemma sixPlaces_process:
  "\<exists>c. clusteringAgent_process haversineDistance sixPlaces = Some (Inr [c]) \<and> locations c = sixPlaces"
proof -
  from sixPlaces_clustered obtain c where
    c: "clusterByProximity haversineDistance sixPlaces = [c]" "locations c = sixPlaces"
    by (auto simp: map_eq_Cons_conv)
  have "sixPlaces \<noteq> []" by (simp add: sixPlaces_def)
  then have "clusteringAgent_process haversineDistance sixPlaces =
      Some (Inr [c\<lparr>locations := sixPlaces\<rparr>])"
    using c by (simp add: clusteringAgent_process_def optimizeClusterSequence_def sixPlaces_routed)
  then show ?thesis by simp
qed

lemma sixPlaces_breakdown:
  "calculateBreakdown sixPlaces 2 =
     \<lparr>food = 0, activities = 40, transport = 6, accommodation = 0, misc = 54, total' = 100\<rparr>"
  by (simp add: calculateBreakdown_def sixPlaces_def museum_def stall_def addCost_def jsRound_def)

lemma sixPlaces_sorted: "sortByCostDesc sixPlaces = sixPlaces"
  by (simp add: sortByCostDesc_def sixPlaces_def museum_def stall_def costOrZero_def)

lemma sixPlaces_removed:
  "map (\<lambda>r. id' (location r)) (remove' (simpleOptimization sixPlaces 100 50)) = [''a'']"
  unfolding simpleOptimization_def sixPlaces_sorted
  by (simp add: sixPlaces_def museum_def stall_def optimizeStep_def costOrZero_def)

lemma sixPlaces_budget:
  "\<exists>out. budgetAgent_process NoUsableAnswer sixPlaces budget50 2 = Inr out \<and>
     adjustedLocations out = Some [stall ''o1'', stall ''o2'', stall ''o3'', stall ''o4'', stall ''o5'']"
  using sixPlaces_removed
  by (simp add: budgetAgent_process_def sixPlaces_breakdown budget50_def optimizeBudget_def
      applyOptimization_def)
     (simp add: sixPlaces_def museum_def stall_def)

lemma slice_sixPlaces:
  "slice sixPlaces 0 3 = [museum, stall ''o1'', stall ''o2'']"
  "slice sixPlaces 3 6 = [stall ''o3'', stall ''o4'', stall ''o5'']"
  by (simp_all add: slice_def sixPlaces_def)

lemma sixPlaces_days:
  "\<exists>s1 s2 w. scheduleDays haversineDistance sixPlaces 3 budget50 [0 ..< 2] ([], []) = Inr ([s1, s2], w) \<and>
     map locationId (slots s1) = [''a'', ''o1'', ''o2''] \<and>
     map locationId (slots s2) = [''o3'', ''o4'', ''o5'']"
proof -
  have u: "[0 ..< 2] = [0, 1::nat]" by (simp add: upt_rec)
  obtain s1 where s1: "createDaySchedule haversineDistance [museum, stall ''o1'', stall ''o2''] 0 budget50 = Inr s1"
    by (cases "createDaySchedule haversineDistance [museum, stall ''o1'', stall ''o2''] 0 budget50")
       (simp_all add: createDaySchedule_Inl budget50_def)
  obtain s2 where s2: "createDaySchedule haversineDistance [stall ''o3'', stall ''o4'', stall ''o5''] 1 budget50 = Inr s2"
    by (cases "createDaySchedule haversineDistance [stall ''o3'', stall ''o4'', stall ''o5''] 1 budget50")
       (simp_all add: createDaySchedule_Inl budget50_def)
  have i1: "map locationId (slots s1) = [''a'', ''o1'', ''o2'']"
    using createDaySchedule_ids [OF s1]
    by (simp add: sortByOptimalTime_def getOptimalStartTime_def museum_def stall_def)
  have i2: "map locationId (slots s2) = [''o3'', ''o4'', ''o5'']"
    using createDaySchedule_ids [OF s2]
    by (simp add: sortByOptimalTime_def getOptimalStartTime_def museum_def stall_def)
  show ?thesis
    using s1 s2 i1 i2 by (simp add: u slice_sixPlaces split: option.splits)
qed

text \<open>
  C1. The orchestrator hands the budget-adjusted locations to the time agent, which does
  not read them. For six places over a budget of 50, with no usable answer of the chat
  service, the fallback removes the museum \<open>a\<close>: the adjusted locations are the five
  stalls, and the first slot of the first day is the museum.
\<close>

theorem scheduler_ignores_budget_adjustment:
  "map_option (map_sum id (\<lambda>r. (map id' (fst r), map (map locationId \<circ> slots) (schedules (snd r)))))
     (orchestrator_schedule haversineDistance haversineDistance NoUsableAnswer sixPlaces budget50) =
   Some (Inr ([''o1'', ''o2'', ''o3'', ''o4'', ''o5''], [[''a'', ''o1'', ''o2''], [''o3'', ''o4'', ''o5'']]))"
proof -
  from sixPlaces_process obtain c where
    c: "clusteringAgent_process haversineDistance sixPlaces = Some (Inr [c])" "locations c = sixPlaces"
    by blast
  from sixPlaces_budget obtain out where
    b: "budgetAgent_process NoUsableAnswer sixPlaces budget50 2 = Inr out"
       "adjustedLocations out = Some [stall ''o1'', stall ''o2'', stall ''o3'', stall ''o4'', stall ''o5'']"
    by blast
  from sixPlaces_days obtain s1 s2 w where
    d: "scheduleDays haversineDistance sixPlaces 3 budget50 [0 ..< 2] ([], []) = Inr ([s1, s2], w)"
       "map locationId (slots s1) = [''a'', ''o1'', ''o2'']"
       "map locationId (slots s2) = [''o3'', ''o4'', ''o5'']"
    by auto
  have n: "length sixPlaces = 6" by (simp add: sixPlaces_def)
  have m: "members [c] = sixPlaces" using c(2) by (simp add: members_def)
  have nd: "max 1 (ceilDiv (length sixPlaces) 5) = 2" by (simp add: n ceilDiv_def)
  have lpd: "ceilDiv (length sixPlaces) 2 = 3" by (simp add: n ceilDiv_def)
  have t: "timeAgent_process haversineDistance [c] bl budget50 2 =
      Inr \<lparr>schedules = [s1, s2], warnings = w, suggestions = generalSuggestions sixPlaces\<rparr>" for bl
    by (simp only: timeAgent_process_def m lpd Let_def d(1) sum.case prod.case)
  have "orchestrator_schedule haversineDistance haversineDistance NoUsableAnswer sixPlaces budget50 =
      Some (Inr ([stall ''o1'', stall ''o2'', stall ''o3'', stall ''o4'', stall ''o5''],
        \<lparr>schedules = [s1, s2], warnings = w, suggestions = generalSuggestions sixPlaces\<rparr>))"
    by (simp only: orchestrator_schedule_def c(1) nd Let_def b t option.case sum.case)
  then show ?thesis using d(2,3) by (simp add: stall_def)
qed

section \<open>The allocation of days\<close>

lemma createDaySchedule_length:
  "createDaySchedule hav locs d p = Inr sch \<Longrightarrow> length (slots sch) = length locs"
  using createDaySchedule_ids [of hav locs d p sch]
  by (metis length_map length_sort sortByOptimalTime_def)

lemma scheduleDays_result:
  "(\<forall>sch w. scheduleDays hav ord lpd p days st = Inr (sch, w) \<longrightarrow>
      map (length \<circ> slots) sch =
        map (length \<circ> slots) (fst st) @
        map length (filter (\<lambda>c. c \<noteq> []) (map (\<lambda>day. slice ord (day * lpd) ((day + 1) * lpd)) days))) \<and>
   (\<forall>e. scheduleDays hav ord lpd p days st = Inl e \<longrightarrow>
      e = InvalidTimeValue \<and> startDate p = Some InvalidDate)"
proof (induction days arbitrary: st)
  case Nil
  show ?case by (cases st) simp
next
  case (Cons day days)
  let ?chunk = "slice ord (day * lpd) ((day + 1) * lpd)"
  show ?case
  proof (cases "?chunk = []")
    case True
    then show ?thesis using Cons.IH [of st] by simp
  next
    case ne: False
    show ?thesis
    proof (cases "createDaySchedule hav ?chunk day p")
      case (Inl e)
      have step: "scheduleDays hav ord lpd p (day # days) st = Inl e"
        using ne Inl by simp
      have "e = InvalidTimeValue \<and> startDate p = Some InvalidDate"
        using Inl by (simp add: createDaySchedule_Inl)
      then show ?thesis unfolding step by simp
    next
      case (Inr schedule)
      define st' where "st' = (fst st @ [schedule],
          case totalDuration schedule of
            None \<Rightarrow> snd st
          | Some t \<Rightarrow> if t > 10 * 60 then snd st @ [packedWarning day t] else snd st)"
      have step: "scheduleDays hav ord lpd p (day # days) st = scheduleDays hav ord lpd p days st'"
        using ne Inr by (simp add: st'_def)
      have len: "length (slots schedule) = length ?chunk"
        using Inr by (rule createDaySchedule_length)
      show ?thesis
        using Cons.IH [of st'] ne len unfolding step by (simp add: st'_def)
    qed
  qed
qed

lemma slices_concat:
  "concat (map (\<lambda>day. slice xs (day * k) ((day + 1) * k)) [0 ..< m]) = take (m * k) xs"
proof (induction m)
  case 0
  show ?case by simp
next
  case (Suc m)
  have "take (m * k) xs @ drop (m * k) (take ((m + 1) * k) xs) = take ((m + 1) * k) xs"
    using append_take_drop_id [of "m * k" "take ((m + 1) * k) xs"] by (simp add: min_def)
  with Suc show ?case by (simp add: slice_def)
qed

lemma ceilDiv_covers: "1 \<le> d \<Longrightarrow> n \<le> d * ceilDiv n d"
proof -
  assume d: "1 \<le> d"
  have "(n + d - 1) mod d < d" using d by simp
  moreover have "d * ((n + d - 1) div d) + (n + d - 1) mod d = n + d - 1" by simp
  ultimately show ?thesis using d unfolding ceilDiv_def by linarith
qed

lemma concat_nonempty: "concat (filter (\<lambda>c. c \<noteq> []) xss) = concat xss"
  by (induction xss) simp_all

lemma length_concat_sum: "length (concat xss) = sum_list (map length xss)"
  by (induction xss) simp_all

text \<open>
  C7. For every list of clusters and \<open>numDays \<ge> 1\<close>: the non-empty chunks that the loop
  of \<open>TimeAgent.process\<close> cuts from the ordered locations make up the ordered locations,
  so their sizes add up to the number of locations. When the call succeeds it emits one
  schedule for each non-empty chunk, with as many slots as the chunk has locations: no
  schedule has zero slots, and the slots of all schedules are as many as the locations.
  The call fails only on a start date that is not a date, and then emits nothing.
\<close>

theorem day_allocation:
  assumes "1 \<le> numDays"
  shows "(let ordered = members clusters;
              perDay = ceilDiv (length ordered) numDays;
              chunks = filter (\<lambda>c. c \<noteq> [])
                         (map (\<lambda>day. slice ordered (day * perDay) ((day + 1) * perDay)) [0 ..< numDays])
          in concat chunks = ordered \<and> sum_list (map length chunks) = length ordered \<and>
             (case timeAgent_process hav clusters locs p numDays of
                Inl e \<Rightarrow> e = InvalidTimeValue \<and> startDate p = Some InvalidDate
              | Inr out \<Rightarrow>
                  map (length \<circ> slots) (schedules out) = map length chunks \<and>
                  (\<forall>s\<in>set (schedules out). slots s \<noteq> []) \<and>
                  sum_list (map (length \<circ> slots) (schedules out)) = length ordered))"
proof -
  let ?ordered = "members clusters"
  let ?perDay = "ceilDiv (length ?ordered) numDays"
  let ?chunks = "filter (\<lambda>c. c \<noteq> [])
      (map (\<lambda>day. slice ?ordered (day * ?perDay) ((day + 1) * ?perDay)) [0 ..< numDays])"
  have cover: "length ?ordered \<le> numDays * ?perDay"
    using ceilDiv_covers [OF assms] by simp
  have cc: "concat ?chunks = ?ordered"
    unfolding concat_nonempty slices_concat using cover by simp
  have sum: "sum_list (map length ?chunks) = length ?ordered"
    using cc length_concat_sum [of ?chunks] by simp
  have pos: "\<forall>n\<in>set (map length ?chunks). 0 < n" by auto
  note r = scheduleDays_result [of hav ?ordered ?perDay p "[0 ..< numDays]" "([], [])"]
  have "case timeAgent_process hav clusters locs p numDays of
          Inl e \<Rightarrow> e = InvalidTimeValue \<and> startDate p = Some InvalidDate
        | Inr out \<Rightarrow>
            map (length \<circ> slots) (schedules out) = map length ?chunks \<and>
            (\<forall>s\<in>set (schedules out). slots s \<noteq> []) \<and>
            sum_list (map (length \<circ> slots) (schedules out)) = length ?ordered"
  proof (cases "scheduleDays hav ?ordered ?perDay p [0 ..< numDays] ([], [])")
    case (Inl e)
    with r have "e = InvalidTimeValue \<and> startDate p = Some InvalidDate" by blast
    then show ?thesis
      unfolding timeAgent_process_def Let_def Inl by simp
  next
    case (Inr res)
    obtain sch w where res: "res = (sch, w)" by (cases res)
    with r Inr have m: "map (length \<circ> slots) sch = map length ?chunks" by simp
    have ne: "\<forall>s\<in>set sch. slots s \<noteq> []"
    proof
      fix s assume "s \<in> set sch"
      then have "length (slots s) \<in> set (map (length \<circ> slots) sch)" by auto
      with m pos show "slots s \<noteq> []" by auto
    qed
    have "sum_list (map (length \<circ> slots) sch) = length ?ordered"
      using m sum by simp
    with m ne show ?thesis
      unfolding timeAgent_process_def Let_def Inr res by simp
  qed
  with cc sum show ?thesis
    unfolding Let_def by blast
qed

text \<open>Six locations over four days: three schedules of two slots, the empty fourth day is dropped.\<close>

theorem day_allocation_witness:
  "(1 :: nat) \<le> 4 \<and>
   map_sum id (\<lambda>out. map (length \<circ> slots) (schedules out))
     (timeAgent_process haversineDistance [sixCluster] [] budget50 4) = Inr [2, 2, 2]"
proof -
  have u: "[0 ..< 4] = [0, 1, 2, 3 :: nat]" by (simp add: upt_rec)
  have m: "members [sixCluster] = sixPlaces" by (simp add: members_def sixCluster_def)
  have c: "ceilDiv (length sixPlaces) 4 = 2" by (simp add: ceilDiv_def sixPlaces_def)
  have ch: "filter (\<lambda>c. c \<noteq> [])
      (map (\<lambda>day. slice (members [sixCluster])
                    (day * ceilDiv (length (members [sixCluster])) 4)
                    ((day + 1) * ceilDiv (length (members [sixCluster])) 4)) [0 ..< 4])
      = [[museum, stall ''o1''], [stall ''o2'', stall ''o3''], [stall ''o4'', stall ''o5'']]"
    unfolding m c u by (simp add: slice_def sixPlaces_def)
  have "case timeAgent_process haversineDistance [sixCluster] [] budget50 4 of
          Inl e \<Rightarrow> e = InvalidTimeValue \<and> startDate budget50 = Some InvalidDate
        | Inr out \<Rightarrow> map (length \<circ> slots) (schedules out) =
            map length [[museum, stall ''o1''], [stall ''o2'', stall ''o3''], [stall ''o4'', stall ''o5'']]"
    using day_allocation [where numDays = 4 and clusters = "[sixCluster]" and hav = haversineDistance
        and locs = "[]" and p = budget50, unfolded Let_def ch]
    by (auto split: sum.splits)
  then show ?thesis
    by (cases "timeAgent_process haversineDistance [sixCluster] [] budget50 4")
       (simp_all add: budget50_def)
qed

section \<open>The running clock and the end of the day\<close>


















end
